theory Spec2Isabelle
  imports Main "HOL-Library.AList" "HOL-Library.Word"
begin

section \<open>Data model (main.py, lines 14-87)\<close>

text \<open>
  The pydantic models of \<^verbatim>\<open>main.py\<close>, restricted to the fields the pipeline reads.
  Python strings are \<open>string\<close> (their UTF-8 bytes: the characters the pipeline tests
  and replaces are ASCII, which no byte of a longer UTF-8 sequence equals), Python
  integers are \<open>int\<close>. Field names are those of the source; \<open>id\<close> is prefixed with
  the first letter of its class, since record fields are global constants.
\<close>

type_synonym bytes = "8 word list"

record MusicInfo =
  m_id :: int
  title :: string
  lyricist :: string
  composer :: string
  arranger :: string
  m_assetBundleName :: string

record Character =
  characterType :: string
  characterId :: int

record VocalInfo =
  v_id :: int
  musicId :: int
  musicVocalType :: string
  characters :: "Character list"
  v_assetBundleName :: string

record OutsideCharacter =
  o_id :: int
  o_name :: string

record GameCharacter =
  g_id :: int
  firstName :: string
  givenName :: string

definition full_name :: "GameCharacter \<Rightarrow> string" where
  "full_name g = firstName g @ givenName g"

text \<open>
  The module-level globals \<^verbatim>\<open>musics\<close>, \<^verbatim>\<open>game_characters\<close>, \<^verbatim>\<open>outside_characters\<close>
  and \<^verbatim>\<open>vocal_map\<close>. A Python \<^verbatim>\<open>dict\<close> keeps its keys in insertion order, so each
  dictionary is an association list with distinct keys: \<open>AList.update\<close> is
  \<^verbatim>\<open>d[k] = v\<close> (the value is replaced in place, a new key goes to the end) and
  \<open>map_of\<close> is the lookup.
\<close>

record catalog =
  musics :: "MusicInfo list"
  game_characters :: "(int \<times> GameCharacter) list"
  outside_characters :: "(int \<times> OutsideCharacter) list"
  vocal_map :: "(int \<times> VocalInfo list) list"

text \<open>
  The exceptions that leave \<^verbatim>\<open>fetch_music\<close>: a missing character, a failure of the tagging
  library, and the \<^verbatim>\<open>MarkupError\<close> of \<^verbatim>\<open>rich.print\<close>.
\<close>

datatype error = KeyError int | TagError | MarkupError

section \<open>Author list, character names, file name and path (fetch_music, lines 96-122)\<close>

text \<open>\<^verbatim>\<open>sep.join(xs)\<close>.\<close>

fun join :: "string \<Rightarrow> string list \<Rightarrow> string" where
  "join sep [] = []"
| "join sep [x] = x"
| "join sep (x # y # ys) = x @ sep @ join sep (y # ys)"

text \<open>
  The keys of the dict display \<^verbatim>\<open>{music.lyricist: 0, music.composer: 0, music.arranger: 0}\<close>
  in iteration order, and the generator \<^verbatim>\<open>i for i in {...} if i and i != "-"\<close> over them.
\<close>

definition author_dict :: "MusicInfo \<Rightarrow> (string \<times> nat) list" where
  "author_dict music =
     AList.update (arranger music) 0
       (AList.update (composer music) 0
          (AList.update (lyricist music) 0 []))"

definition authors :: "MusicInfo \<Rightarrow> string list" where
  "authors music = filter (\<lambda>i. i \<noteq> [] \<and> i \<noteq> ''-'') (map fst (author_dict music))"

definition authors_repr :: "MusicInfo \<Rightarrow> string" where
  "authors_repr music = join '', '' (authors music)"

text \<open>
  Lines 111-116: the display name of one character reference. Any discriminant other
  than \<^verbatim>\<open>"game_character"\<close> is looked up among the outside characters. A missing key
  raises \<^verbatim>\<open>KeyError\<close>.
\<close>

definition character_name :: "catalog \<Rightarrow> Character \<Rightarrow> error + string" where
  "character_name cat c =
     (if characterType c = ''game_character''
      then (case map_of (game_characters cat) (characterId c) of
              None \<Rightarrow> Inl (KeyError (characterId c))
            | Some g \<Rightarrow> Inr (full_name g))
      else (case map_of (outside_characters cat) (characterId c) of
              None \<Rightarrow> Inl (KeyError (characterId c))
            | Some e \<Rightarrow> Inr (o_name e)))"

text \<open>The tuple is built left to right; the first missing key aborts it.\<close>

fun characters_tup :: "catalog \<Rightarrow> Character list \<Rightarrow> error + string list" where
  "characters_tup cat [] = Inr []"
| "characters_tup cat (c # cs) =
     (case character_name cat c of
        Inl e \<Rightarrow> Inl e
      | Inr n \<Rightarrow> (case characters_tup cat cs of
                   Inl e \<Rightarrow> Inl e
                 | Inr ns \<Rightarrow> Inr (n # ns)))"

definition characters_repr :: "string list \<Rightarrow> string" where
  "characters_repr tup = (if tup \<noteq> [] then ''('' @ join '', '' tup @ '')'' else [])"

text \<open>The string \<^verbatim>\<open>"?*:<>|/\\"\<close> of line 119; its last character is the backslash.\<close>

definition forbidden :: string where
  "forbidden = ''?*:<>|/'' @ [CHR 0x5C]"

text \<open>\<^verbatim>\<open>s.replace(repl, "_")\<close> for a one-character \<^verbatim>\<open>repl\<close>.\<close>

definition replace_char :: "char \<Rightarrow> string \<Rightarrow> string" where
  "replace_char repl s = map (\<lambda>c. if c = repl then CHR ''_'' else c) s"

definition raw_file_name :: "MusicInfo \<Rightarrow> VocalInfo \<Rightarrow> string list \<Rightarrow> string" where
  "raw_file_name music vocal tup =
     authors_repr music @ '' - '' @ title music @ '' - '' @ musicVocalType vocal
       @ characters_repr tup @ ''.mp3''"

text \<open>Lines 118-120: the f-string, then one \<^verbatim>\<open>replace\<close> per forbidden character.\<close>

definition music_file_name :: "MusicInfo \<Rightarrow> VocalInfo \<Rightarrow> string list \<Rightarrow> string" where
  "music_file_name music vocal tup = fold replace_char forbidden (raw_file_name music vocal tup)"

text \<open>
  Lines 121-122: \<^verbatim>\<open>Path(f"./Download/{vocal.musicVocalType}/{music_file_name}")\<close>.
  \<^verbatim>\<open>pathlib\<close> (on a POSIX system) splits the text at \<^verbatim>\<open>/\<close> and drops the empty parts and
  the parts \<^verbatim>\<open>.\<close>; the path it works with is the remaining parts joined by \<^verbatim>\<open>/\<close>. The
  parts \<^verbatim>\<open>..\<close> and symbolic links are left to the file system: the model identifies a
  file with the text of its path.
\<close>

text \<open>\<^verbatim>\<open>s.split(sep)\<close> for a one-character \<^verbatim>\<open>sep\<close>; the result is never empty.\<close>

fun split :: "char \<Rightarrow> string \<Rightarrow> string list" where
  "split sep [] = [[]]"
| "split sep (c # s) =
     (if c = sep then [] # split sep s
      else (case split sep s of
              [] \<Rightarrow> [[c]]
            | p # ps \<Rightarrow> (c # p) # ps))"

definition parts :: "string \<Rightarrow> string list" where
  "parts text = filter (\<lambda>x. x \<noteq> [] \<and> x \<noteq> ''.'') (split CHR ''/'' text)"

definition as_posix :: "string list \<Rightarrow> string" where
  "as_posix ps = (if ps = [] then ''.'' else join ''/'' ps)"

definition oop_path :: "VocalInfo \<Rightarrow> string \<Rightarrow> string" where
  "oop_path vocal file_name =
     as_posix (parts (''./Download/'' @ musicVocalType vocal @ ''/'' @ file_name))"

text \<open>
  \<^verbatim>\<open>oop_path.parent\<close> is the path without its last part. The file name of line 120 is
  always one part (it holds no separator and ends in \<^verbatim>\<open>.mp3\<close>), so the parent is made
  of the parts before it (lemma \<open>parent_of_path\<close> below).
\<close>

definition oop_parent :: "VocalInfo \<Rightarrow> string" where
  "oop_parent vocal = as_posix (parts (''./Download/'' @ musicVocalType vocal))"

section \<open>The environment of a Track Worker\<close>

text \<open>
  What \<^verbatim>\<open>fetch_music\<close> does to the outside world is recorded as a trace of events, one
  constructor per effectful call site of the source: the two \<^verbatim>\<open>client.get\<close> calls
  (lines 105 and 137, one event per request, failed or not), the write of line 143-144,
  the two \<^verbatim>\<open>mp3.save()\<close> calls (lines 157 and 168) and the two progress callbacks.
  Console messages are not recorded; a \<^verbatim>\<open>print\<close> is modelled by whether it returns.
\<close>

datatype event =
    GetCover string
  | GetAudio string
  | FileWrite string
  | TagSave string
  | CoverSave string
  | AdvanceVariant
  | Advance

text \<open>
  A file on disk: the payload written by line 144, the text frames of its tag, by
  their \<^verbatim>\<open>EasyMP3\<close> key, and the picture frames that line 160 has added. A text frame
  holds a list of strings (a single string assigned to an \<^verbatim>\<open>EasyMP3\<close> key is the
  one-element list).
\<close>

record apic =
  mime :: string
  ptype :: nat
  desc :: string
  pdata :: bytes

type_synonym tags = "string \<rightharpoonup> string list"

record mp3file =
  content :: bytes
  easy_tags :: tags
  apic_frames :: "apic list"

text \<open>
  The tagging library is outside the repository; where it raises is a parameter of the
  world (it raises \<^verbatim>\<open>HeaderNotFoundError\<close> on a payload that is not MPEG audio). \<open>Phase1Fails\<close>: \<^verbatim>\<open>EasyMP3(path)\<close> or the first \<^verbatim>\<open>save()\<close> raises (nothing
  is persisted); \<open>Phase2Fails\<close>: the reopening, \<^verbatim>\<open>add\<close> or the second \<^verbatim>\<open>save()\<close>
  raises (the text frames are on disk, the picture is not).
\<close>

datatype tag_fault = NoFault | Phase1Fails | Phase2Fails

text \<open>
  The world: the files and directories on disk, the answers the network will give to
  the coming requests (one entry per request, \<open>None\<close> when \<^verbatim>\<open>client.get\<close> raises),
  the behaviour of the tagging library on a path and payload, the text frames that a
  payload carries of its own (what \<^verbatim>\<open>EasyMP3(path)\<close> loads from a file just written),
  whether the console accepts a text that holds a closing markup tag, and the trace so
  far. The network script is finite: a retry loop that exhausts it has not returned.
  The calls into the file system (\<^verbatim>\<open>mkdir\<close>, \<^verbatim>\<open>open\<close>, \<^verbatim>\<open>write\<close>) are taken to succeed.
\<close>

record world =
  files :: "string \<rightharpoonup> mp3file"
  dirs :: "string set"
  net :: "(string \<Rightarrow> bytes option) list"
  faults :: "string \<Rightarrow> bytes \<Rightarrow> tag_fault"
  carried :: "bytes \<Rightarrow> tags"
  console :: "string \<Rightarrow> bool"
  trace :: "event list"

datatype outcome = Done | Raised error | Starved

definition emit :: "event \<Rightarrow> world \<Rightarrow> world" where
  "emit e w = w\<lparr>trace := trace w @ [e]\<rparr>"

text \<open>
  \<^verbatim>\<open>rich.print\<close> reads its text as console markup and raises \<^verbatim>\<open>MarkupError\<close> for a
  closing tag (\<^verbatim>\<open>[/...]\<close>) that closes no open tag. A text without \<^verbatim>\<open>[/\<close> is always
  printed; for the others the world decides. Other failures of the console are not
  modelled.
\<close>

fun closing_tag :: "string \<Rightarrow> bool" where
  "closing_tag (c # d # s) = ((c = CHR ''['' \<and> d = CHR ''/'') \<or> closing_tag (d # s))"
| "closing_tag s = False"

definition rich_print :: "world \<Rightarrow> string \<Rightarrow> bool" where
  "rich_print w text = (if closing_tag text then console w text else True)"

text \<open>
  The loops \<^verbatim>\<open>while cover_png is None\<close> (lines 102-108) and \<^verbatim>\<open>while dl is None\<close>
  (lines 135-142): request until one request answers. The result is the payload, if
  any, and the number of requests made.
\<close>

fun retry_get :: "string \<Rightarrow> (string \<Rightarrow> bytes option) list \<Rightarrow> bytes option \<times> nat" where
  "retry_get url [] = (None, 0)"
| "retry_get url (r # rs) =
     (case r url of
        Some b \<Rightarrow> (Some b, 1)
      | None \<Rightarrow> (case retry_get url rs of (res, k) \<Rightarrow> (res, Suc k)))"

definition fetch :: "(string \<Rightarrow> event) \<Rightarrow> string \<Rightarrow> world \<Rightarrow> bytes option \<times> world" where
  "fetch ev url w =
     (case retry_get url (net w) of
        (res, k) \<Rightarrow> (res, w\<lparr>net := drop k (net w), trace := trace w @ replicate k (ev url)\<rparr>))"

definition cover_url :: "MusicInfo \<Rightarrow> string" where
  "cover_url music =
     ''https://storage.sekai.best/sekai-assets/music/jacket/'' @ m_assetBundleName music
       @ ''_rip/'' @ m_assetBundleName music @ ''.png''"

definition audio_url :: "VocalInfo \<Rightarrow> string" where
  "audio_url vocal =
     ''https://storage.sekai.best/sekai-assets/music/long/'' @ v_assetBundleName vocal
       @ ''_rip/'' @ v_assetBundleName vocal @ ''.mp3''"

text \<open>
  \<^verbatim>\<open>oop_path.parent.mkdir(parents=True, exist_ok=True)\<close> (the directories above the
  parent are not recorded) and \<^verbatim>\<open>oop_path.exists()\<close>.
\<close>

definition mkdir :: "string \<Rightarrow> world \<Rightarrow> world" where
  "mkdir d w = w\<lparr>dirs := insert d (dirs w)\<rparr>"

definition path_exists :: "world \<Rightarrow> string \<Rightarrow> bool" where
  "path_exists w p = (files w p \<noteq> None \<or> p \<in> dirs w)"

text \<open>
  Lines 143-144: the file is created or truncated and receives the payload; its text
  frames are those the payload carries.
\<close>

definition write_file :: "string \<Rightarrow> bytes \<Rightarrow> world \<Rightarrow> world" where
  "write_file p dl w =
     emit (FileWrite p)
       (w\<lparr>files := (files w)(p \<mapsto>
            \<lparr>content = dl, easy_tags = carried w dl, apic_frames = []\<rparr>)\<rparr>)"

section \<open>Tagging (fetch_music, lines 128-133 and 146-168)\<close>

definition artists :: "MusicInfo \<Rightarrow> string list \<Rightarrow> string list" where
  "artists music tup = tup @ authors music"

definition getattr :: "MusicInfo \<Rightarrow> string \<Rightarrow> string" where
  "getattr music t =
     (if t = ''lyricist'' then lyricist music
      else if t = ''composer'' then composer music
      else arranger music)"

text \<open>Lines 150-152: \<^verbatim>\<open>for t in [...]: if (d := getattr(music, t)) != "-": mp3[t] = d\<close>.\<close>

fun set_author_tags :: "MusicInfo \<Rightarrow> string list \<Rightarrow> tags \<Rightarrow> tags" where
  "set_author_tags music [] mp3 = mp3"
| "set_author_tags music (t # ts) mp3 =
     set_author_tags music ts
       (if getattr music t \<noteq> ''-'' then mp3(t \<mapsto> [getattr music t]) else mp3)"

text \<open>Lines 149-156: the assignments to the \<^verbatim>\<open>EasyMP3\<close> keys, in the source's order.\<close>

definition phase1 :: "MusicInfo \<Rightarrow> VocalInfo \<Rightarrow> string list \<Rightarrow> tags \<Rightarrow> tags" where
  "phase1 music vocal tup mp3 =
     ((set_author_tags music [''lyricist'', ''composer'', ''arranger'']
         (mp3(''title'' \<mapsto> [title music])))
        (''artist'' \<mapsto> artists music tup,
         ''performer'' \<mapsto> tup,
         ''album'' \<mapsto> [''Project Sekai Soundtrack - '' @ musicVocalType vocal]))"

text \<open>
  Line 157, \<^verbatim>\<open>mp3.save()\<close>: the library writes the text frames of the tag, except those
  whose text is empty. The text of a frame is its strings joined by a zero character,
  so the frames left out are those with no string and those with one empty string.
\<close>

definition empty_frame :: "string list \<Rightarrow> bool" where
  "empty_frame v = (join [CHR 0x00] v = [])"

definition saved :: "tags \<Rightarrow> tags" where
  "saved mp3 = (\<lambda>key. case mp3 key of
                        None \<Rightarrow> None
                      | Some v \<Rightarrow> if empty_frame v then None else Some v)"

definition save_tags :: "string \<Rightarrow> (tags \<Rightarrow> tags) \<Rightarrow> world \<Rightarrow> world" where
  "save_tags p f w =
     emit (TagSave p)
       (case files w p of
          None \<Rightarrow> w
        | Some file \<Rightarrow>
            w\<lparr>files := (files w)(p \<mapsto> file\<lparr>easy_tags := saved (f (easy_tags file))\<rparr>)\<rparr>)"

text \<open>
  Lines 159-168: the front cover; \<^verbatim>\<open>PictureType.COVER_FRONT\<close> is 3. The text frames, saved
  once already, are written again as they are.
\<close>

definition cover_frame :: "bytes \<Rightarrow> apic" where
  "cover_frame cover_png =
     \<lparr>mime = ''image/png'', ptype = 3, desc = ''Cover (front)'', pdata = cover_png\<rparr>"

definition save_cover :: "string \<Rightarrow> bytes \<Rightarrow> world \<Rightarrow> world" where
  "save_cover p cover_png w =
     emit (CoverSave p)
       (case files w p of
          None \<Rightarrow> w
        | Some file \<Rightarrow>
            w\<lparr>files := (files w)(p \<mapsto>
                 file\<lparr>apic_frames := apic_frames file @ [cover_frame cover_png]\<rparr>)\<rparr>)"

section \<open>The Track Worker (fetch_music, lines 90-173)\<close>

text \<open>
  The body of \<^verbatim>\<open>for vocal in vocals\<close> (lines 111-171). The names are resolved first, so
  a missing character raises before anything else happens; the directory is created
  before the existence test. The messages of lines 124, 140, 145 and 170 hold the
  sanitised file name between fixed words and so no \<^verbatim>\<open>[/\<close> (lemma \<open>name_message_prints\<close>
  below): they are always printed. The message of line 142 holds the text of the
  network exception as well, which is taken to hold no closing tag.
\<close>

definition process_variant ::
  "catalog \<Rightarrow> MusicInfo \<Rightarrow> bytes \<Rightarrow> VocalInfo \<Rightarrow> world \<Rightarrow> outcome \<times> world" where
  "process_variant cat music cover_png vocal w =
     (case characters_tup cat (characters vocal) of
        Inl e \<Rightarrow> (Raised e, w)
      | Inr tup \<Rightarrow>
          (let path = oop_path vocal (music_file_name music vocal tup);
               w1 = mkdir (oop_parent vocal) w
           in if path_exists w1 path then (Done, emit AdvanceVariant w1)
              else (case fetch GetAudio (audio_url vocal) w1 of
                      (None, w2) \<Rightarrow> (Starved, w2)
                    | (Some dl, w2) \<Rightarrow>
                        (let w3 = write_file path dl w2
                         in case faults w3 path dl of
                              Phase1Fails \<Rightarrow> (Raised TagError, w3)
                            | Phase2Fails \<Rightarrow>
                                (Raised TagError, save_tags path (phase1 music vocal tup) w3)
                            | NoFault \<Rightarrow>
                                (Done,
                                 emit AdvanceVariant
                                   (save_cover path cover_png
                                      (save_tags path (phase1 music vocal tup) w3)))))))"

fun process_variants ::
  "catalog \<Rightarrow> MusicInfo \<Rightarrow> bytes \<Rightarrow> VocalInfo list \<Rightarrow> world \<Rightarrow> outcome \<times> world" where
  "process_variants cat music cover_png [] w = (Done, w)"
| "process_variants cat music cover_png (vocal # vocals) w =
     (case process_variant cat music cover_png vocal w of
        (out, w') \<Rightarrow>
          (case out of
             Done \<Rightarrow> process_variants cat music cover_png vocals w'
           | Raised e \<Rightarrow> (Raised e, w')
           | Starved \<Rightarrow> (Starved, w')))"

text \<open>
  The messages of lines 109 and 172 hold the title of the track as it is, and raise
  when the console refuses them.
\<close>

definition cover_message :: "MusicInfo \<Rightarrow> string" where
  "cover_message music = ''[green] Got cover for '' @ title music"

definition downloaded_message :: "MusicInfo \<Rightarrow> string" where
  "downloaded_message music = ''[magenta] Downloaded '' @ title music"

text \<open>The whole worker, run without interruption.\<close>

definition fetch_music ::
  "catalog \<Rightarrow> MusicInfo \<Rightarrow> VocalInfo list \<Rightarrow> world \<Rightarrow> outcome \<times> world" where
  "fetch_music cat music vocals w =
     (case fetch GetCover (cover_url music) w of
        (None, w1) \<Rightarrow> (Starved, w1)
      | (Some cover_png, w1) \<Rightarrow>
          if \<not> rich_print w1 (cover_message music)
          then (Raised MarkupError, w1)
          else (case process_variants cat music cover_png vocals w1 of
                  (out, w2) \<Rightarrow>
                    (case out of
                       Done \<Rightarrow>
                         if \<not> rich_print w2 (downloaded_message music)
                         then (Raised MarkupError, w2)
                         else (Done, emit Advance w2)
                     | Raised e \<Rightarrow> (Raised e, w2)
                     | Starved \<Rightarrow> (Starved, w2))))"

section \<open>The Track Worker between its awaits\<close>

text \<open>
  \<^verbatim>\<open>fetch_music\<close> is a coroutine: it gives way to the other workers at its two
  \<^verbatim>\<open>await client.get\<close> (lines 105 and 137) and nowhere else. A task is a worker that
  waits at one of them, or that has ended. \<open>Cover\<close>: in the loop of lines 102-108.
  \<open>Audio\<close>: in the loop of lines 135-142 for a variant whose names are resolved, with
  the variants still to come.
\<close>

datatype task =
    Cover MusicInfo "VocalInfo list"
  | Audio MusicInfo bytes VocalInfo "string list" "VocalInfo list"
  | Returned
  | Raising error

text \<open>
  The code that runs without giving way from the head of the loop of line 110: the
  variants whose file exists are skipped, up to the first variant that has to be
  fetched, to an exception, or to the end of the worker (lines 172-173).
\<close>

fun run_variants ::
  "catalog \<Rightarrow> MusicInfo \<Rightarrow> bytes \<Rightarrow> VocalInfo list \<Rightarrow> world \<Rightarrow> task \<times> world" where
  "run_variants cat music cover_png [] w =
     (if \<not> rich_print w (downloaded_message music)
      then (Raising MarkupError, w)
      else (Returned, emit Advance w))"
| "run_variants cat music cover_png (vocal # vocals) w =
     (case characters_tup cat (characters vocal) of
        Inl e \<Rightarrow> (Raising e, w)
      | Inr tup \<Rightarrow>
          (let path = oop_path vocal (music_file_name music vocal tup);
               w1 = mkdir (oop_parent vocal) w
           in if path_exists w1 path
              then run_variants cat music cover_png vocals (emit AdvanceVariant w1)
              else (Audio music cover_png vocal tup vocals, w1)))"

text \<open>
  One turn of a task: its pending request gets the next answer of the network, and
  the task runs up to its next request or to its end. Without an answer left the task
  keeps waiting.
\<close>

fun resume :: "catalog \<Rightarrow> task \<Rightarrow> world \<Rightarrow> task \<times> world" where
  "resume cat (Cover music vocals) w =
     (case net w of
        [] \<Rightarrow> (Cover music vocals, w)
      | r # rs \<Rightarrow>
          (let w1 = w\<lparr>net := rs, trace := trace w @ [GetCover (cover_url music)]\<rparr>
           in case r (cover_url music) of
                None \<Rightarrow> (Cover music vocals, w1)
              | Some cover_png \<Rightarrow>
                  if \<not> rich_print w1 (cover_message music)
                  then (Raising MarkupError, w1)
                  else run_variants cat music cover_png vocals w1))"
| "resume cat (Audio music cover_png vocal tup vocals) w =
     (case net w of
        [] \<Rightarrow> (Audio music cover_png vocal tup vocals, w)
      | r # rs \<Rightarrow>
          (let w1 = w\<lparr>net := rs, trace := trace w @ [GetAudio (audio_url vocal)]\<rparr>
           in case r (audio_url vocal) of
                None \<Rightarrow> (Audio music cover_png vocal tup vocals, w1)
              | Some dl \<Rightarrow>
                  (let path = oop_path vocal (music_file_name music vocal tup);
                       w3 = write_file path dl w1
                   in case faults w3 path dl of
                        Phase1Fails \<Rightarrow> (Raising TagError, w3)
                      | Phase2Fails \<Rightarrow>
                          (Raising TagError, save_tags path (phase1 music vocal tup) w3)
                      | NoFault \<Rightarrow>
                          run_variants cat music cover_png vocals
                            (emit AdvanceVariant
                               (save_cover path cover_png
                                  (save_tags path (phase1 music vocal tup) w3))))))"
| "resume cat Returned w = (Returned, w)"
| "resume cat (Raising e) w = (Raising e, w)"

section \<open>The orchestrator (main, lines 228-249)\<close>

text \<open>The generator of lines 244-248: one worker per track whose id is a key of the map.\<close>

definition scheduled :: "catalog \<Rightarrow> (MusicInfo \<times> VocalInfo list) list" where
  "scheduled cat =
     concat (map (\<lambda>music. case map_of (vocal_map cat) (m_id music) of
                             None \<Rightarrow> []
                           | Some vocals \<Rightarrow> [(music, vocals)])
                 (musics cat))"

text \<open>Lines 230 and 232-235: the totals of the two progress tasks.\<close>

definition dl_task_total :: "catalog \<Rightarrow> nat" where
  "dl_task_total cat = length (musics cat)"

definition dl_variant_task_total :: "catalog \<Rightarrow> nat" where
  "dl_variant_task_total cat = sum_list (map (\<lambda>(k, v). length v) (vocal_map cat))"

text \<open>
  \<^verbatim>\<open>asyncio.gather\<close> (lines 243-249) starts all workers and lets them take turns at
  their awaits, in an order that the arrival of the answers decides. A schedule is the
  list of the turns, each the position of a worker. The first exception that a worker
  raises is the exception of \<^verbatim>\<open>gather\<close>, hence of \<^verbatim>\<open>main\<close>; the other workers are not
  cancelled by \<^verbatim>\<open>gather\<close> and go on for as long as the schedule lets them (until the
  interpreter cancels them while it shuts the loop down).
\<close>

definition first_failure :: "error option \<Rightarrow> task \<Rightarrow> error option" where
  "first_failure failure t =
     (case failure of
        Some e \<Rightarrow> Some e
      | None \<Rightarrow> (case t of Raising e \<Rightarrow> Some e | _ \<Rightarrow> None))"

fun turns ::
  "catalog \<Rightarrow> nat list \<Rightarrow> error option \<times> task list \<times> world
     \<Rightarrow> error option \<times> task list \<times> world" where
  "turns cat [] s = s"
| "turns cat (i # schedule) (failure, ts, w) =
     (if i < length ts
      then (case resume cat (ts ! i) w of
              (t, w') \<Rightarrow> turns cat schedule (first_failure failure t, ts[i := t], w'))
      else turns cat schedule (failure, ts, w))"

text \<open>
  The run of the workers \<open>ws\<close> under a schedule: the exception of the run if a worker
  raised, \<open>Done\<close> if all workers returned, \<open>Starved\<close> if some worker is still waiting
  when the schedule ends.
\<close>

definition start :: "(MusicInfo \<times> VocalInfo list) list \<Rightarrow> task list" where
  "start ws = map (\<lambda>(music, vocals). Cover music vocals) ws"

definition gather ::
  "catalog \<Rightarrow> nat list \<Rightarrow> (MusicInfo \<times> VocalInfo list) list \<Rightarrow> world \<Rightarrow> outcome \<times> world" where
  "gather cat schedule ws w =
     (case turns cat schedule (None, start ws, w) of
        (failure, ts, w') \<Rightarrow>
          ((case failure of
              Some e \<Rightarrow> Raised e
            | None \<Rightarrow> if list_all (\<lambda>t. t = Returned) ts then Done else Starved),
           w'))"

section \<open>The Reference Loader (main, lines 180-226)\<close>

text \<open>
  One fetch and parse step either raises or yields its parsed list. The vocal list is
  consumed lazily by the \<^verbatim>\<open>for\<close> loop of lines 193-201, so each of its elements
  parses or raises on its own, after the elements before it have been added.
\<close>

datatype 'a fetched = Failed | Got 'a

record attempt =
  r_musics :: "MusicInfo list fetched"
  r_vocals :: "VocalInfo fetched list fetched"
  r_game :: "GameCharacter list fetched"
  r_outside :: "OutsideCharacter list fetched"

text \<open>Line 201: \<^verbatim>\<open>vocal_map.setdefault(v.musicId, []).append(v)\<close>.\<close>

definition setdefault_append ::
  "VocalInfo \<Rightarrow> (int \<times> VocalInfo list) list \<Rightarrow> (int \<times> VocalInfo list) list" where
  "setdefault_append v vm = AList.map_default (musicId v) [v] (\<lambda>l. l @ [v]) vm"

fun add_vocals ::
  "VocalInfo fetched list \<Rightarrow> (int \<times> VocalInfo list) list
     \<Rightarrow> bool \<times> (int \<times> VocalInfo list) list" where
  "add_vocals [] vm = (True, vm)"
| "add_vocals (Failed # rest) vm = (False, vm)"
| "add_vocals (Got v # rest) vm = add_vocals rest (setdefault_append v vm)"

text \<open>The dict comprehensions \<^verbatim>\<open>{e.id: e for e in ...}\<close> of lines 203-225.\<close>

definition dict_by :: "('a \<Rightarrow> int) \<Rightarrow> 'a list \<Rightarrow> (int \<times> 'a) list" where
  "dict_by key es = fold (\<lambda>e d. AList.update (key e) e d) es []"

text \<open>
  The body of the \<^verbatim>\<open>while\<close> loop under \<^verbatim>\<open>contextlib.suppress(Exception)\<close>: the first
  step that raises ends the attempt; the globals assigned so far keep their new values.
\<close>

definition load_attempt :: "attempt \<Rightarrow> catalog \<Rightarrow> catalog" where
  "load_attempt a cat =
     (case r_musics a of
        Failed \<Rightarrow> cat
      | Got ms \<Rightarrow>
          (let cat1 = cat\<lparr>musics := ms\<rparr> in
           case r_vocals a of
             Failed \<Rightarrow> cat1
           | Got vs \<Rightarrow>
               (case add_vocals vs (vocal_map cat1) of
                  (ok, vm) \<Rightarrow>
                    (let cat2 = cat1\<lparr>vocal_map := vm\<rparr> in
                     if \<not> ok then cat2
                     else (case r_game a of
                             Failed \<Rightarrow> cat2
                           | Got gs \<Rightarrow>
                               (let cat3 = cat2\<lparr>game_characters := dict_by g_id gs\<rparr> in
                                case r_outside a of
                                  Failed \<Rightarrow> cat3
                                | Got os \<Rightarrow>
                                    cat3\<lparr>outside_characters := dict_by o_id os\<rparr>))))))"

text \<open>
  \<^verbatim>\<open>while not outside_characters\<close>: the attempts are the outcomes the network gives,
  in order. \<open>None\<close>: the loop is still running when the script ends.
\<close>

fun loader :: "attempt list \<Rightarrow> catalog \<Rightarrow> catalog option" where
  "loader [] cat = (if outside_characters cat \<noteq> [] then Some cat else None)"
| "loader (a # rest) cat =
     (if outside_characters cat \<noteq> [] then Some cat else loader rest (load_attempt a cat))"

text \<open>The globals as lines 84-87 initialise them.\<close>

definition initial :: catalog where
  "initial = \<lparr>musics = [], game_characters = [], outside_characters = [], vocal_map = []\<rparr>"

section \<open>Notions of the specification\<close>

text \<open>
  The specification's author list: the de-duplicated, order-preserving, non-empty,
  non-\<^verbatim>\<open>"-"\<close> subset of lyricist, composer, arranger. \<open>dedupe seen xs\<close> keeps the first
  occurrence of every element of \<open>xs\<close> that is not in \<open>seen\<close>.
\<close>

fun dedupe :: "'a list \<Rightarrow> 'a list \<Rightarrow> 'a list" where
  "dedupe seen [] = []"
| "dedupe seen (x # xs) =
     (if x \<in> set seen then dedupe seen xs else x # dedupe (x # seen) xs)"

definition spec_authors :: "MusicInfo \<Rightarrow> string list" where
  "spec_authors music =
     filter (\<lambda>i. i \<noteq> [] \<and> i \<noteq> ''-'')
       (dedupe [] [lyricist music, composer music, arranger music])"

text \<open>Every forbidden character replaced by an underscore.\<close>

definition sanitize :: "string \<Rightarrow> string" where
  "sanitize s = map (\<lambda>c. if c \<in> set forbidden then CHR ''_'' else c) s"

text \<open>The destination path of a variant whose character names are \<open>tup\<close>.\<close>

definition destination :: "MusicInfo \<Rightarrow> VocalInfo \<Rightarrow> string list \<Rightarrow> string" where
  "destination music vocal tup = oop_path vocal (music_file_name music vocal tup)"


text \<open>
  A character reference whose identifier is absent from the catalog of its
  discriminant.
\<close>

definition dangling :: "catalog \<Rightarrow> Character \<Rightarrow> bool" where
  "dangling cat c =
     (if characterType c = ''game_character''
      then map_of (game_characters cat) (characterId c) = None
      else map_of (outside_characters cat) (characterId c) = None)"

text \<open>A variant that holds a dangling reference.\<close>

definition has_dangling :: "catalog \<Rightarrow> VocalInfo \<Rightarrow> bool" where
  "has_dangling cat vocal = list_ex (dangling cat) (characters vocal)"

text \<open>A task that waits for an answer of the network.\<close>

fun awaiting :: "task \<Rightarrow> bool" where
  "awaiting (Cover music vocals) = True"
| "awaiting (Audio music cover_png vocal tup vocals) = True"
| "awaiting t = False"

text \<open>
  A worker on its own: \<open>drive\<close> gives a task \<open>n\<close> turns in a row, and \<open>solo\<close> reads
  the result as an outcome (a task that still waits has not returned).
\<close>

fun outcome_of :: "task \<Rightarrow> outcome" where
  "outcome_of Returned = Done"
| "outcome_of (Raising e) = Raised e"
| "outcome_of t = Starved"

fun drive :: "catalog \<Rightarrow> nat \<Rightarrow> task \<Rightarrow> world \<Rightarrow> task \<times> world" where
  "drive cat 0 t w = (t, w)"
| "drive cat (Suc n) t w = (case resume cat t w of (t', w') \<Rightarrow> drive cat n t' w')"

definition solo :: "catalog \<Rightarrow> nat \<Rightarrow> task \<Rightarrow> world \<Rightarrow> outcome \<times> world" where
  "solo cat n t w = (case drive cat n t w of (t', w') \<Rightarrow> (outcome_of t', w'))"

text \<open>
  Two parts of the uninterrupted worker \<^verbatim>\<open>fetch_music\<close>, named for the comparison with
  its tasks: \<open>finish\<close> is what it does after the message of line 109, \<open>rest_audio\<close>
  what it does from the loop of lines 135-142 of a variant on.
\<close>

definition finish ::
  "catalog \<Rightarrow> MusicInfo \<Rightarrow> bytes \<Rightarrow> VocalInfo list \<Rightarrow> world \<Rightarrow> outcome \<times> world" where
  "finish cat music cover_png vocals w =
     (case process_variants cat music cover_png vocals w of
        (out, w2) \<Rightarrow>
          (case out of
             Done \<Rightarrow>
               if \<not> rich_print w2 (downloaded_message music)
               then (Raised MarkupError, w2)
               else (Done, emit Advance w2)
           | Raised e \<Rightarrow> (Raised e, w2)
           | Starved \<Rightarrow> (Starved, w2)))"

definition rest_audio ::
  "catalog \<Rightarrow> MusicInfo \<Rightarrow> bytes \<Rightarrow> VocalInfo \<Rightarrow> string list \<Rightarrow> VocalInfo list
     \<Rightarrow> world \<Rightarrow> outcome \<times> world" where
  "rest_audio cat music cover_png vocal tup vocals w1 =
     (let path = oop_path vocal (music_file_name music vocal tup)
      in case fetch GetAudio (audio_url vocal) w1 of
           (None, w2) \<Rightarrow> (Starved, w2)
         | (Some dl, w2) \<Rightarrow>
             (let w3 = write_file path dl w2
              in case faults w3 path dl of
                   Phase1Fails \<Rightarrow> (Raised TagError, w3)
                 | Phase2Fails \<Rightarrow>
                     (Raised TagError, save_tags path (phase1 music vocal tup) w3)
                 | NoFault \<Rightarrow>
                     finish cat music cover_png vocals
                       (emit AdvanceVariant
                          (save_cover path cover_png
                             (save_tags path (phase1 music vocal tup) w3)))))"

text \<open>
  A task that will never return: a dangling reference is among the variants it still
  has to resolve, or it has raised.
\<close>

fun doomed :: "catalog \<Rightarrow> task \<Rightarrow> bool" where
  "doomed cat (Cover music vocals) = list_ex (has_dangling cat) vocals"
| "doomed cat (Audio music cover_png vocal tup vocals) = list_ex (has_dangling cat) vocals"
| "doomed cat Returned = False"
| "doomed cat (Raising e) = True"


text \<open>
  The frame that a saved file has for a key to which the list \<open>v\<close> was assigned: the
  list itself, and no frame when the list is empty or holds one empty string.
\<close>

definition stored :: "string list \<Rightarrow> string list option" where
  "stored v = (if v = [] \<or> v = [[]] then None else Some v)"





section \<open>Concrete data\<close>

definition ex_music :: MusicInfo where
  "ex_music = \<lparr>m_id = 1, title = ''Tell Your World'', lyricist = ''kz'', composer = ''kz'',
     arranger = ''-'', m_assetBundleName = ''jacket_s_001''\<rparr>"

definition ex_music2 :: MusicInfo where
  "ex_music2 = \<lparr>m_id = 2, title = ''Untitled'', lyricist = ''-'', composer = ''-'',
     arranger = ''-'', m_assetBundleName = ''jacket_s_002''\<rparr>"

definition ex_vocal :: VocalInfo where
  "ex_vocal = \<lparr>v_id = 10, musicId = 1, musicVocalType = ''sekai'',
     characters = [\<lparr>characterType = ''game_character'', characterId = 21\<rparr>],
     v_assetBundleName = ''0001_01''\<rparr>"

definition ex_vocal3 :: VocalInfo where
  "ex_vocal3 = \<lparr>v_id = 30, musicId = 3, musicVocalType = ''sekai'', characters = [],
     v_assetBundleName = ''0003_01''\<rparr>"

definition ex_miku :: GameCharacter where
  "ex_miku = \<lparr>g_id = 21, firstName = ''Hatsune'', givenName = ''Miku''\<rparr>"

definition ex_guest :: OutsideCharacter where
  "ex_guest = \<lparr>o_id = 1, o_name = ''Guest''\<rparr>"

text \<open>A loading attempt in which all four steps succeed.\<close>

definition ex_pass :: attempt where
  "ex_pass = \<lparr>r_musics = Got [ex_music], r_vocals = Got [Got ex_vocal],
     r_game = Got [ex_miku], r_outside = Got [ex_guest]\<rparr>"

text \<open>The same answers, except that the game character request raises.\<close>

definition ex_failed :: attempt where
  "ex_failed = \<lparr>r_musics = Got [ex_music], r_vocals = Got [Got ex_vocal],
     r_game = Failed, r_outside = Got [ex_guest]\<rparr>"

text \<open>A successful attempt with a track without variants and a variant without track.\<close>

definition ex_pass2 :: attempt where
  "ex_pass2 = \<lparr>r_musics = Got [ex_music, ex_music2],
     r_vocals = Got [Got ex_vocal, Got ex_vocal3],
     r_game = Got [ex_miku], r_outside = Got [ex_guest]\<rparr>"

definition ex_cat :: catalog where
  "ex_cat = \<lparr>musics = [ex_music], game_characters = [(21, ex_miku)],
     outside_characters = [(1, ex_guest)], vocal_map = [(1, [ex_vocal])]\<rparr>"

definition ex_path :: string where
  "ex_path = ''Download/sekai/kz - Tell Your World - sekai(HatsuneMiku).mp3''"

text \<open>
  A payload of four MPEG audio frames (MPEG-1 layer III, 128 kbit/s, 44.1 kHz: 417
  bytes each) without a tag of its own, and the first bytes of a PNG image.
\<close>

definition ex_frame :: bytes where
  "ex_frame = [0xFF, 0xFB, 0x90, 0x00] @ replicate 413 0"

definition ex_mp3 :: bytes where
  "ex_mp3 = ex_frame @ ex_frame @ ex_frame @ ex_frame"

definition ex_png :: bytes where
  "ex_png = [0x89, 0x50, 0x4E, 0x47, 0x0D, 0x0A, 0x1A, 0x0A]"

text \<open>
  A world whose network answers the next four requests, with the payload for the audio
  of the variant and with the image otherwise; whose tagging library accepts the
  payloads that start with an MPEG frame header; whose payloads carry no frames; and
  whose console refuses every text with a closing tag.
\<close>

definition ex_answer :: "string \<Rightarrow> bytes option" where
  "ex_answer u = (if u = audio_url ex_vocal then Some ex_mp3 else Some ex_png)"

definition ex_world :: world where
  "ex_world = \<lparr>files = Map.empty, dirs = {}, net = replicate 4 ex_answer,
     faults = (\<lambda>p b. if take 2 b = [0xFF, 0xFB] then NoFault else Phase1Fails),
     carried = (\<lambda>b. Map.empty), console = (\<lambda>t. False), trace = []\<rparr>"

text \<open>The same world after an earlier run has left the file of the variant on disk.\<close>

definition ex_world_done :: world where
  "ex_world_done = ex_world\<lparr>
     files := [ex_path \<mapsto> \<lparr>content = ex_mp3, easy_tags = Map.empty, apic_frames = []\<rparr>],
     dirs := {''Download'', ''Download/sekai''}\<rparr>"

text \<open>A reference to a game character that the catalog does not have, and its variant.\<close>

definition ex_bad_ref :: Character where
  "ex_bad_ref = \<lparr>characterType = ''game_character'', characterId = 99\<rparr>"

definition ex_vocal_bad :: VocalInfo where
  "ex_vocal_bad = \<lparr>v_id = 11, musicId = 1, musicVocalType = ''sekai'',
     characters = [ex_bad_ref], v_assetBundleName = ''0001_02''\<rparr>"

text \<open>
  A world whose network answers every request with three bytes that are not MPEG
  audio, which the tagging library refuses.
\<close>

definition ex_world_faulty :: world where
  "ex_world_faulty = ex_world\<lparr>net := replicate 4 (\<lambda>u. Some [1, 2, 3])\<rparr>"

text \<open>A track whose lyricist is the empty string.\<close>

definition ex_music_blank :: MusicInfo where
  "ex_music_blank = ex_music\<lparr>lyricist := []\<rparr>"


section \<open>File names and paths\<close>

lemma authors_spec: "authors music = spec_authors music"
  by (auto simp: authors_def spec_authors_def author_dict_def)

lemma fold_replace_sanitize: "fold replace_char forbidden s = sanitize s"
  by (induction s) (simp_all add: forbidden_def replace_char_def sanitize_def)

lemma sanitize_clean: "set (sanitize s) \<inter> set forbidden = {}"
  by (auto simp: sanitize_def forbidden_def)

text \<open>
  Claim C4. The file name of a track and variant is the template
  \<^verbatim>\<open><authors joined by ", "> - <title> - <variantType><(characters joined by ", ")>.mp3\<close>
  over the specification's author list, without the parenthesised suffix when there is
  no character, with every forbidden character replaced by an underscore; no forbidden
  character is left in it; and the title \<^verbatim>\<open>A/B?C\<close> with variant type \<^verbatim>\<open>sing\<close>, no
  author and no character gives \<^verbatim>\<open> - A_B_C - sing.mp3\<close>.
\<close>

theorem file_name_construction:
  "music_file_name music vocal tup =
     sanitize (join '', '' (spec_authors music) @ '' - '' @ title music @ '' - ''
                 @ musicVocalType vocal
                 @ (if tup = [] then [] else ''('' @ join '', '' tup @ '')'')
                 @ ''.mp3'')
   \<and> set (music_file_name music vocal tup) \<inter> set forbidden = {}
   \<and> music_file_name
         \<lparr>m_id = 1, title = ''A/B?C'', lyricist = ''-'', composer = [], arranger = ''-'',
            m_assetBundleName = ''x''\<rparr>
         \<lparr>v_id = 1, musicId = 1, musicVocalType = ''sing'', characters = [],
            v_assetBundleName = ''y''\<rparr> []
       = '' - A_B_C - sing.mp3''"
proof (intro conjI)
  show "music_file_name music vocal tup =
     sanitize (join '', '' (spec_authors music) @ '' - '' @ title music @ '' - ''
                 @ musicVocalType vocal
                 @ (if tup = [] then [] else ''('' @ join '', '' tup @ '')'')
                 @ ''.mp3'')"
    by (simp add: music_file_name_def fold_replace_sanitize raw_file_name_def authors_repr_def
        authors_spec characters_repr_def)
  show "set (music_file_name music vocal tup) \<inter> set forbidden = {}"
    by (simp only: music_file_name_def fold_replace_sanitize sanitize_clean)
  show "music_file_name
         \<lparr>m_id = 1, title = ''A/B?C'', lyricist = ''-'', composer = [], arranger = ''-'',
            m_assetBundleName = ''x''\<rparr>
         \<lparr>v_id = 1, musicId = 1, musicVocalType = ''sing'', characters = [],
            v_assetBundleName = ''y''\<rparr> []
       = '' - A_B_C - sing.mp3''"
    by (simp add: music_file_name_def raw_file_name_def authors_repr_def authors_def
        author_dict_def characters_repr_def forbidden_def replace_char_def)
qed

section \<open>Paths\<close>

lemma sanitize_append: "sanitize (a @ b) = sanitize a @ sanitize b"
  by (simp add: sanitize_def)

lemma file_name_mp3: "\<exists>stem. music_file_name music vocal tup = stem @ ''.mp3''"
  by (simp add: music_file_name_def fold_replace_sanitize raw_file_name_def sanitize_append)
     (simp add: sanitize_def forbidden_def)

lemma file_name_no_separator: "CHR ''/'' \<notin> set (music_file_name music vocal tup)"
  unfolding music_file_name_def fold_replace_sanitize
  using sanitize_clean[of "raw_file_name music vocal tup"] by (auto simp: forbidden_def)

lemma file_name_is_part:
  "music_file_name music vocal tup \<noteq> [] \<and> music_file_name music vocal tup \<noteq> ''.''"
  using file_name_mp3[of music vocal tup] by auto

lemma split_not_empty [simp]: "split sep s \<noteq> []"
  by (induction s) (auto split: list.splits)

lemma split_append: "split sep (a @ sep # b) = split sep a @ split sep b"
  by (induction a) (auto split: list.splits)

lemma split_no_separator: "sep \<notin> set s \<Longrightarrow> split sep s = [s]"
  by (induction s) auto


lemma join_snoc: "xs \<noteq> [] \<Longrightarrow> join sep (xs @ [x]) = join sep xs @ sep @ x"
  by (induction sep xs rule: join.induct) auto


lemma parts_of_raw_parent:
  "parts (''./Download/'' @ t) = ''Download'' # filter (\<lambda>x. x \<noteq> [] \<and> x \<noteq> ''.'') (split CHR ''/'' t)"
  by (simp add: parts_def)

lemma parts_of_raw_path:
  "parts (''./Download/'' @ musicVocalType vocal @ ''/'' @ music_file_name music vocal tup)
     = parts (''./Download/'' @ musicVocalType vocal) @ [music_file_name music vocal tup]"
  using file_name_no_separator[of music vocal tup] file_name_is_part[of music vocal tup]
  by (simp add: parts_def split_append split_no_separator)

lemma parent_of_path:
  "as_posix (butlast (parts (''./Download/'' @ musicVocalType vocal @ ''/''
       @ music_file_name music vocal tup))) = oop_parent vocal"
  by (simp only: parts_of_raw_path butlast_snoc oop_parent_def)

lemma path_parts:
  "oop_path vocal (music_file_name music vocal tup)
     = join ''/'' (''Download''
         # filter (\<lambda>x. x \<noteq> [] \<and> x \<noteq> ''.'') (split CHR ''/'' (musicVocalType vocal))
         @ [music_file_name music vocal tup])"
proof -
  have "oop_path vocal (music_file_name music vocal tup)
      = as_posix (parts (''./Download/'' @ musicVocalType vocal)
                    @ [music_file_name music vocal tup])"
    by (simp only: oop_path_def parts_of_raw_path)
  also have "\<dots> = as_posix ((''Download''
         # filter (\<lambda>x. x \<noteq> [] \<and> x \<noteq> ''.'') (split CHR ''/'' (musicVocalType vocal)))
         @ [music_file_name music vocal tup])"
    by (simp only: parts_of_raw_parent)
  finally show ?thesis by (simp add: as_posix_def)
qed

lemma parent_parts:
  "oop_parent vocal
     = join ''/'' (''Download''
         # filter (\<lambda>x. x \<noteq> [] \<and> x \<noteq> ''.'') (split CHR ''/'' (musicVocalType vocal)))"
  by (simp only: oop_parent_def parts_of_raw_parent) (simp add: as_posix_def)

lemma path_is_parent_and_name:
  "oop_path vocal (music_file_name music vocal tup)
     = oop_parent vocal @ ''/'' @ music_file_name music vocal tup"
proof -
  let ?ps = "''Download''
     # filter (\<lambda>x. x \<noteq> [] \<and> x \<noteq> ''.'') (split CHR ''/'' (musicVocalType vocal))"
  have "join ''/'' (?ps @ [music_file_name music vocal tup])
      = join ''/'' ?ps @ ''/'' @ music_file_name music vocal tup"
    by (rule join_snoc) simp
  then show ?thesis by (simp only: path_parts parent_parts append_Cons)
qed




section \<open>The Reference Loader\<close>

lemmas loader_defs = load_attempt_def setdefault_append_def dict_by_def initial_def

lemma load_pass: "loader [ex_pass] initial = Some ex_cat"
  by (simp add: loader_defs ex_cat_def ex_pass_def ex_vocal_def ex_miku_def ex_guest_def)

text \<open>
  Claim C1. The claim says that a run of failed attempts followed by one successful pass
  builds the catalog the successful pass alone would build. The variant map is not
  reset between attempts: after an attempt that fails at the game character request and
  a successful pass, the variant list of track 1 holds its variant twice, where the
  successful pass alone gives it once.
\<close>

theorem retry_accumulates_variants:
  "map_option vocal_map (loader [ex_failed, ex_pass] initial) = Some [(1, [ex_vocal, ex_vocal])]
   \<and> map_option vocal_map (loader [ex_pass] initial) = Some [(1, [ex_vocal])]"
  by (simp add: loader_defs ex_pass_def ex_failed_def ex_vocal_def ex_miku_def ex_guest_def)

text \<open>
  Claim C2. The claim says that the total of the track counter is the number of loaded
  tracks with a variant and the total of the variant counter the number of their
  variants. With two loaded tracks of which one has a variant, and a second variant
  whose track is not loaded, one worker is scheduled and it has one variant, while both
  totals are 2.
\<close>

theorem progress_totals_unfiltered:
  "map_option dl_task_total (loader [ex_pass2] initial) = Some 2
   \<and> map_option (\<lambda>cat. length (scheduled cat)) (loader [ex_pass2] initial) = Some 1
   \<and> map_option dl_variant_task_total (loader [ex_pass2] initial) = Some 2
   \<and> map_option (\<lambda>cat. sum_list (map (\<lambda>(music, vocals). length vocals) (scheduled cat)))
        (loader [ex_pass2] initial) = Some 1"
  by (simp add: loader_defs ex_pass2_def ex_music_def ex_music2_def ex_vocal_def ex_vocal3_def
      ex_miku_def ex_guest_def dl_task_total_def dl_variant_task_total_def scheduled_def)

lemma setdefault_append_nonempty:
  "\<forall>(k, vocals) \<in> set vm. vocals \<noteq> [] \<Longrightarrow>
   \<forall>(k, vocals) \<in> set (setdefault_append v vm). vocals \<noteq> []"
  unfolding setdefault_append_def by (induction vm) auto

lemma add_vocals_nonempty:
  "\<forall>(k, vocals) \<in> set vm. vocals \<noteq> [] \<Longrightarrow>
   \<forall>(k, vocals) \<in> set (snd (add_vocals vs vm)). vocals \<noteq> []"
proof (induction vs vm rule: add_vocals.induct)
  case (3 v rest vm)
  then show ?case using setdefault_append_nonempty[of vm v] by simp
qed simp_all

lemma load_attempt_vocal_map:
  "vocal_map (load_attempt a cat) = vocal_map cat
   \<or> (\<exists>vs. vocal_map (load_attempt a cat) = snd (add_vocals vs (vocal_map cat)))"
proof (cases "r_musics a")
  case Failed
  then show ?thesis by (simp add: load_attempt_def)
next
  case (Got ms)
  show ?thesis
  proof (cases "r_vocals a")
    case Failed
    with Got show ?thesis by (simp add: load_attempt_def)
  next
    case (Got vs)
    with \<open>r_musics a = Got ms\<close>
    have "vocal_map (load_attempt a cat) = snd (add_vocals vs (vocal_map cat))"
      by (simp add: load_attempt_def Let_def split: fetched.splits prod.splits)
    then show ?thesis by blast
  qed
qed

lemma load_attempt_nonempty:
  assumes "\<forall>(k, vocals) \<in> set (vocal_map cat). vocals \<noteq> []"
  shows "\<forall>(k, vocals) \<in> set (vocal_map (load_attempt a cat)). vocals \<noteq> []"
  using load_attempt_vocal_map[of a cat] add_vocals_nonempty[OF assms] assms by metis

lemma loader_nonempty:
  "\<forall>(k, vocals) \<in> set (vocal_map cat). vocals \<noteq> [] \<Longrightarrow> loader as cat = Some cat' \<Longrightarrow>
   \<forall>(k, vocals) \<in> set (vocal_map cat'). vocals \<noteq> []"
proof (induction as arbitrary: cat)
  case Nil
  then show ?case by (simp split: if_splits)
next
  case (Cons a as)
  show ?case
  proof (cases "outside_characters cat \<noteq> []")
    case True
    with Cons.prems show ?thesis by simp
  next
    case False
    with Cons.prems have "loader as (load_attempt a cat) = Some cat'" by simp
    with Cons.IH[OF load_attempt_nonempty[OF Cons.prems(1)]] show ?thesis by blast
  qed
qed

lemma scheduled_in_vocal_map:
  "(music, vocals) \<in> set (scheduled cat) \<Longrightarrow> (m_id music, vocals) \<in> set (vocal_map cat)"
  by (auto simp: scheduled_def dest: map_of_SomeD[OF sym] split: option.splits)

text \<open>
  Claim C9. In the catalog with which the loader returns, after one successful pass or
  after any number of attempts, every key of the variant map has a non-empty list, and
  every scheduled worker receives a non-empty list of variants.
\<close>

theorem workers_receive_variants:
  assumes "loader as initial = Some cat"
  shows "(\<forall>(k, vocals) \<in> set (vocal_map cat). vocals \<noteq> [])
       \<and> (\<forall>(music, vocals) \<in> set (scheduled cat). vocals \<noteq> [])"
proof -
  have inv: "\<forall>(k, vocals) \<in> set (vocal_map cat). vocals \<noteq> []"
    using loader_nonempty[OF _ assms] by (simp add: initial_def)
  moreover have "\<forall>(music, vocals) \<in> set (scheduled cat). vocals \<noteq> []"
    using inv scheduled_in_vocal_map by fastforce
  ultimately show ?thesis by simp
qed

theorem workers_receive_variants_witness:
  "loader [ex_pass] initial = Some ex_cat
   \<and> list_all (\<lambda>(k, vocals). vocals \<noteq> []) (vocal_map ex_cat)
   \<and> list_all (\<lambda>(music, vocals). vocals \<noteq> []) (scheduled ex_cat)"
  using workers_receive_variants[OF load_pass] load_pass
  by (simp add: list_all_iff)

section \<open>Effects of the world operations\<close>

lemma emit_proj [simp]:
  "files (emit e w) = files w" "dirs (emit e w) = dirs w" "net (emit e w) = net w"
  "faults (emit e w) = faults w" "trace (emit e w) = trace w @ [e]"
  "carried (emit e w) = carried w" "console (emit e w) = console w"
  by (simp_all add: emit_def)

lemma mkdir_proj [simp]:
  "files (mkdir d w) = files w" "dirs (mkdir d w) = insert d (dirs w)" "net (mkdir d w) = net w"
  "faults (mkdir d w) = faults w" "trace (mkdir d w) = trace w"
  "carried (mkdir d w) = carried w" "console (mkdir d w) = console w"
  by (simp_all add: mkdir_def)

lemma write_file_proj [simp]:
  "files (write_file p dl w)
     = (files w)(p \<mapsto> \<lparr>content = dl, easy_tags = carried w dl, apic_frames = []\<rparr>)"
  "dirs (write_file p dl w) = dirs w" "net (write_file p dl w) = net w"
  "faults (write_file p dl w) = faults w" "trace (write_file p dl w) = trace w @ [FileWrite p]"
  "carried (write_file p dl w) = carried w" "console (write_file p dl w) = console w"
  by (simp_all add: write_file_def)

lemma save_tags_proj [simp]:
  "files (save_tags p f w) =
     (case files w p of None \<Rightarrow> files w
      | Some file \<Rightarrow> (files w)(p \<mapsto> file\<lparr>easy_tags := saved (f (easy_tags file))\<rparr>))"
  "dirs (save_tags p f w) = dirs w" "net (save_tags p f w) = net w"
  "faults (save_tags p f w) = faults w" "trace (save_tags p f w) = trace w @ [TagSave p]"
  "carried (save_tags p f w) = carried w" "console (save_tags p f w) = console w"
  by (simp_all add: save_tags_def split: option.splits)

lemma save_cover_proj [simp]:
  "files (save_cover p c w) =
     (case files w p of None \<Rightarrow> files w
      | Some file \<Rightarrow> (files w)(p \<mapsto> file\<lparr>apic_frames := apic_frames file @ [cover_frame c]\<rparr>))"
  "dirs (save_cover p c w) = dirs w" "net (save_cover p c w) = net w"
  "faults (save_cover p c w) = faults w" "trace (save_cover p c w) = trace w @ [CoverSave p]"
  "carried (save_cover p c w) = carried w" "console (save_cover p c w) = console w"
  by (simp_all add: save_cover_def split: option.splits)

lemma retry_get_None: "retry_get url rs = (None, k) \<Longrightarrow> k = length rs"
  by (induction rs arbitrary: k) (auto split: option.splits prod.splits)

lemma retry_get_Some: "retry_get url rs = (Some b, k) \<Longrightarrow> 0 < k \<and> k \<le> length rs"
  by (induction rs arbitrary: k) (auto split: option.splits prod.splits)

lemma fetch_proj:
  assumes "fetch ev url w = (res, w')"
  shows "files w' = files w" "dirs w' = dirs w" "faults w' = faults w"
    "carried w' = carried w" "console w' = console w"
    "net w' = drop (snd (retry_get url (net w))) (net w)"
    "trace w' = trace w @ replicate (snd (retry_get url (net w))) (ev url)"
    "res = fst (retry_get url (net w))"
  using assms by (auto simp: fetch_def split: prod.splits)

lemma fetch_None: "fetch ev url w = (None, w') \<Longrightarrow> net w' = []"
  by (auto simp: fetch_def split: prod.splits dest: retry_get_None)

lemma closing_tag_separator: "closing_tag s \<Longrightarrow> CHR ''/'' \<in> set s"
  by (induction s rule: closing_tag.induct) auto

text \<open>A message that holds the sanitised file name between words without \<^verbatim>\<open>/\<close> is printed.\<close>

lemma name_message_prints:
  assumes "CHR ''/'' \<notin> set before" "CHR ''/'' \<notin> set after"
  shows "rich_print w (before @ music_file_name music vocal tup @ after)"
  using assms file_name_no_separator[of music vocal tup]
    closing_tag_separator[of "before @ music_file_name music vocal tup @ after"]
  by (auto simp: rich_print_def)

section \<open>A variant whose file exists\<close>

lemma path_not_parent: "oop_path vocal (music_file_name music vocal tup) \<noteq> oop_parent vocal"
  by (simp add: path_is_parent_and_name)

lemma path_exists_mkdir [simp]:
  "path_exists (mkdir (oop_parent vocal) w) (oop_path vocal (music_file_name music vocal tup))
     = path_exists w (oop_path vocal (music_file_name music vocal tup))"
  by (simp add: path_exists_def path_not_parent)

lemma process_variant_skip:
  assumes "characters_tup cat (characters vocal) = Inr tup"
      and "path_exists w (destination music vocal tup)"
  shows "process_variant cat music cover_png vocal w
           = (Done, emit AdvanceVariant (mkdir (oop_parent vocal) w))"
  using assms by (simp add: process_variant_def destination_def Let_def)

text \<open>
  Claim C6. When the names of a variant resolve and its destination path exists, the
  worker completes the variant at once: the files and the network script are as
  before (no request, no write, no tag), the trace grows by exactly one variant
  progress signal, and the loop goes on with the next variant. The directory of the
  variant has been created before the test, which changes nothing on a disk where the
  path exists.
\<close>

theorem skip_on_exists:
  assumes "characters_tup cat (characters vocal) = Inr tup"
      and "path_exists w (destination music vocal tup)"
  shows "\<exists>w'. process_variant cat music cover_png vocal w = (Done, w')
            \<and> files w' = files w \<and> net w' = net w
            \<and> dirs w' = insert (oop_parent vocal) (dirs w)
            \<and> trace w' = trace w @ [AdvanceVariant]
            \<and> process_variants cat music cover_png (vocal # vocals) w
                = process_variants cat music cover_png vocals w'"
  using process_variant_skip[OF assms] by simp

lemma ex_tup: "characters_tup ex_cat (characters ex_vocal) = Inr [''HatsuneMiku'']"
  by (simp add: ex_cat_def ex_vocal_def ex_miku_def character_name_def full_name_def)

lemma ex_destination: "destination ex_music ex_vocal [''HatsuneMiku''] = ex_path"
  by (simp add: destination_def oop_path_def parts_def as_posix_def music_file_name_def
      raw_file_name_def authors_repr_def authors_def author_dict_def characters_repr_def
      forbidden_def replace_char_def ex_music_def ex_vocal_def ex_path_def)

lemma ex_done_exists: "path_exists ex_world_done (destination ex_music ex_vocal [''HatsuneMiku''])"
  by (simp add: ex_destination path_exists_def ex_world_done_def)

theorem skip_on_exists_witness:
  "characters_tup ex_cat (characters ex_vocal) = Inr [''HatsuneMiku'']
   \<and> path_exists ex_world_done (destination ex_music ex_vocal [''HatsuneMiku''])
   \<and> fst (process_variant ex_cat ex_music [] ex_vocal ex_world_done) = Done
   \<and> files (snd (process_variant ex_cat ex_music [] ex_vocal ex_world_done)) = files ex_world_done
   \<and> net (snd (process_variant ex_cat ex_music [] ex_vocal ex_world_done)) = net ex_world_done
   \<and> trace (snd (process_variant ex_cat ex_music [] ex_vocal ex_world_done)) = [AdvanceVariant]"
proof -
  from skip_on_exists[OF ex_tup ex_done_exists, of "[]" "[]"]
  obtain w' where "process_variant ex_cat ex_music [] ex_vocal ex_world_done = (Done, w')"
    and "files w' = files ex_world_done" and "net w' = net ex_world_done"
    and "trace w' = trace ex_world_done @ [AdvanceVariant]"
    by blast
  then show ?thesis
    using ex_tup ex_done_exists by (simp add: ex_world_done_def ex_world_def)
qed

section \<open>A variant that is fetched\<close>

lemma fetch_Some:
  assumes "retry_get url (net w) = (Some dl, k)"
  shows "fetch ev url w = (Some dl, w\<lparr>net := drop k (net w), trace := trace w @ replicate k (ev url)\<rparr>)"
  using assms by (simp add: fetch_def)

lemma process_variant_fetched:
  assumes "characters_tup cat (characters vocal) = Inr tup"
      and "\<not> path_exists w (destination music vocal tup)"
      and "retry_get (audio_url vocal) (net w) = (Some dl, k)"
      and "process_variant cat music cover_png vocal w = (out, w')"
  shows "out = (if faults w (destination music vocal tup) dl = NoFault then Done
                else Raised TagError)"
    and "trace w' = trace w @ replicate k (GetAudio (audio_url vocal))
           @ FileWrite (destination music vocal tup)
           # (case faults w (destination music vocal tup) dl of
                NoFault \<Rightarrow> [TagSave (destination music vocal tup),
                            CoverSave (destination music vocal tup), AdvanceVariant]
              | Phase1Fails \<Rightarrow> []
              | Phase2Fails \<Rightarrow> [TagSave (destination music vocal tup)])"
    and "files w' = (files w)(destination music vocal tup \<mapsto>
           \<lparr>content = dl,
            easy_tags = (case faults w (destination music vocal tup) dl of
                           Phase1Fails \<Rightarrow> carried w dl
                         | _ \<Rightarrow> saved (phase1 music vocal tup (carried w dl))),
            apic_frames = (case faults w (destination music vocal tup) dl of
                             NoFault \<Rightarrow> [cover_frame cover_png] | _ \<Rightarrow> [])\<rparr>)"
    and "net w' = drop k (net w)"
proof -
  let ?p = "destination music vocal tup"
  let ?w1 = "mkdir (oop_parent vocal) w"
  have ne: "\<not> path_exists ?w1 (oop_path vocal (music_file_name music vocal tup))"
    using assms(2) by (simp add: destination_def)
  have f: "fetch GetAudio (audio_url vocal) ?w1
     = (Some dl, ?w1\<lparr>net := drop k (net w),
                    trace := trace w @ replicate k (GetAudio (audio_url vocal))\<rparr>)"
    using assms(3) by (simp add: fetch_Some)
  let ?w3 = "write_file ?p dl (?w1\<lparr>net := drop k (net w),
                    trace := trace w @ replicate k (GetAudio (audio_url vocal))\<rparr>)"
  have "process_variant cat music cover_png vocal w =
     (case faults w ?p dl of
           Phase1Fails \<Rightarrow> (Raised TagError, ?w3)
         | Phase2Fails \<Rightarrow> (Raised TagError, save_tags ?p (phase1 music vocal tup) ?w3)
         | NoFault \<Rightarrow> (Done, emit AdvanceVariant
               (save_cover ?p cover_png (save_tags ?p (phase1 music vocal tup) ?w3))))"
    using assms(1) ne f
    by (cases "faults w ?p dl") (simp_all add: process_variant_def Let_def destination_def)
  with assms(4) have pv: "(case faults w ?p dl of
           Phase1Fails \<Rightarrow> (Raised TagError, ?w3)
         | Phase2Fails \<Rightarrow> (Raised TagError, save_tags ?p (phase1 music vocal tup) ?w3)
         | NoFault \<Rightarrow> (Done, emit AdvanceVariant
               (save_cover ?p cover_png (save_tags ?p (phase1 music vocal tup) ?w3)))) = (out, w')"
    by simp
  show "out = (if faults w ?p dl = NoFault then Done else Raised TagError)"
    using pv by (cases "faults w ?p dl") auto
  show "trace w' = trace w @ replicate k (GetAudio (audio_url vocal))
           @ FileWrite ?p
           # (case faults w ?p dl of
                NoFault \<Rightarrow> [TagSave ?p, CoverSave ?p, AdvanceVariant]
              | Phase1Fails \<Rightarrow> []
              | Phase2Fails \<Rightarrow> [TagSave ?p])"
    using pv by (cases "faults w ?p dl") auto
  show "files w' = (files w)(?p \<mapsto>
           \<lparr>content = dl,
            easy_tags = (case faults w ?p dl of
                           Phase1Fails \<Rightarrow> carried w dl
                         | _ \<Rightarrow> saved (phase1 music vocal tup (carried w dl))),
            apic_frames = (case faults w ?p dl of
                             NoFault \<Rightarrow> [cover_frame cover_png] | _ \<Rightarrow> [])\<rparr>)"
    using pv by (cases "faults w ?p dl") auto
  show "net w' = drop k (net w)"
    using pv by (cases "faults w ?p dl") auto
qed

text \<open>
  Claim C8. For a variant that is fetched, the payload is written to the destination
  path before the first tag is saved. When tagging fails, the worker raises and the
  file stays at the destination path with the payload and without the cover (and
  with no other frames than the payload carries when the first phase failed); and in
  every later world that has this file
  at the path, whatever the network and the tagging library do there, the variant is
  skipped and the files stay as they are.
\<close>

theorem untagged_file_is_kept:
  assumes "characters_tup cat (characters vocal) = Inr tup"
      and "\<not> path_exists w (destination music vocal tup)"
      and "retry_get (audio_url vocal) (net w) = (Some dl, k)"
      and "process_variant cat music cover_png vocal w = (out, w')"
  shows "trace w' = trace w @ replicate k (GetAudio (audio_url vocal))
           @ FileWrite (destination music vocal tup)
           # (case faults w (destination music vocal tup) dl of
                NoFault \<Rightarrow> [TagSave (destination music vocal tup),
                            CoverSave (destination music vocal tup), AdvanceVariant]
              | Phase1Fails \<Rightarrow> []
              | Phase2Fails \<Rightarrow> [TagSave (destination music vocal tup)])
       \<and> (faults w (destination music vocal tup) dl \<noteq> NoFault \<longrightarrow>
            out = Raised TagError
            \<and> (\<exists>file. files w' (destination music vocal tup) = Some file
                  \<and> content file = dl \<and> apic_frames file = [])
            \<and> (\<forall>(w2::world) cover2. files w2 (destination music vocal tup)
                               = files w' (destination music vocal tup) \<longrightarrow>
                  (\<exists>w3. process_variant cat music cover2 vocal w2 = (Done, w3)
                      \<and> files w3 = files w2 \<and> net w3 = net w2
                      \<and> trace w3 = trace w2 @ [AdvanceVariant])))"
proof (intro conjI impI allI)
  note r = process_variant_fetched[OF assms]
  let ?p = "destination music vocal tup"
  show "trace w' = trace w @ replicate k (GetAudio (audio_url vocal))
           @ FileWrite ?p
           # (case faults w ?p dl of
                NoFault \<Rightarrow> [TagSave ?p, CoverSave ?p, AdvanceVariant]
              | Phase1Fails \<Rightarrow> []
              | Phase2Fails \<Rightarrow> [TagSave ?p])"
    by (rule r(2))
  assume fault: "faults w ?p dl \<noteq> NoFault"
  then show "out = Raised TagError" using r(1) by simp
  show "\<exists>file. files w' ?p = Some file \<and> content file = dl \<and> apic_frames file = []"
    using r(3) fault by (cases "faults w ?p dl") simp_all
  fix w2 :: world and cover2
  assume same: "files w2 ?p = files w' ?p"
  have "files w' ?p \<noteq> None" using r(3) by simp
  with same have "path_exists w2 ?p" by (simp add: path_exists_def)
  from process_variant_skip[where cover_png = cover2, OF assms(1) this]
  show "\<exists>w3. process_variant cat music cover2 vocal w2 = (Done, w3)
            \<and> files w3 = files w2 \<and> net w3 = net w2 \<and> trace w3 = trace w2 @ [AdvanceVariant]"
    by simp
qed

lemma ex_audio_faulty:
  "retry_get (audio_url ex_vocal) (net ex_world_faulty) = (Some [1, 2, 3], 1)"
  by (simp add: ex_world_faulty_def ex_world_def numeral_eq_Suc)

lemma ex_audio: "retry_get (audio_url ex_vocal) (net ex_world) = (Some ex_mp3, 1)"
  by (simp add: ex_world_def ex_answer_def numeral_eq_Suc)

lemma ex_faulty_absent:
  "\<not> path_exists ex_world_faulty (destination ex_music ex_vocal [''HatsuneMiku''])"
  by (simp add: path_exists_def ex_world_faulty_def ex_world_def)

lemma ex_absent: "\<not> path_exists ex_world (destination music vocal tup)"
  by (simp add: path_exists_def ex_world_def)

theorem untagged_file_is_kept_witness:
  "characters_tup ex_cat (characters ex_vocal) = Inr [''HatsuneMiku'']
   \<and> \<not> path_exists ex_world_faulty (destination ex_music ex_vocal [''HatsuneMiku''])
   \<and> retry_get (audio_url ex_vocal) (net ex_world_faulty) = (Some [1, 2, 3], 1)
   \<and> faults ex_world_faulty (destination ex_music ex_vocal [''HatsuneMiku'']) [1, 2, 3] = Phase1Fails
   \<and> fst (process_variant ex_cat ex_music [] ex_vocal ex_world_faulty) = Raised TagError
   \<and> (\<exists>file. files (snd (process_variant ex_cat ex_music [] ex_vocal ex_world_faulty))
                 (destination ex_music ex_vocal [''HatsuneMiku'']) = Some file
             \<and> content file = [1, 2, 3] \<and> apic_frames file = [])
   \<and> fst (process_variant ex_cat ex_music []  ex_vocal
             (snd (process_variant ex_cat ex_music [] ex_vocal ex_world_faulty))) = Done
   \<and> files (snd (process_variant ex_cat ex_music []  ex_vocal
             (snd (process_variant ex_cat ex_music [] ex_vocal ex_world_faulty))))
       = files (snd (process_variant ex_cat ex_music [] ex_vocal ex_world_faulty))"
proof -
  let ?r = "process_variant ex_cat ex_music [] ex_vocal ex_world_faulty"
  let ?p = "destination ex_music ex_vocal [''HatsuneMiku'']"
  have r: "?r = (fst ?r, snd ?r)" by simp
  have hf: "faults ex_world_faulty ?p [1, 2, 3] = Phase1Fails"
    by (simp add: ex_world_faulty_def ex_world_def)
  then have nf: "faults ex_world_faulty ?p [1, 2, 3] \<noteq> NoFault" by simp
  note t = untagged_file_is_kept[OF ex_tup ex_faulty_absent ex_audio_faulty r]
  from t nf have a: "fst ?r = Raised TagError" by blast
  from t nf have b: "\<exists>file. files (snd ?r) ?p = Some file
      \<and> content file = [1, 2, 3] \<and> apic_frames file = []" by blast
  from t nf have "\<forall>(w2::world) cover2. files w2 ?p = files (snd ?r) ?p \<longrightarrow>
      (\<exists>w3. process_variant ex_cat ex_music cover2 ex_vocal w2 = (Done, w3)
          \<and> files w3 = files w2 \<and> net w3 = net w2 \<and> trace w3 = trace w2 @ [AdvanceVariant])"
    by blast
  then obtain w3 where "process_variant ex_cat ex_music [] ex_vocal (snd ?r) = (Done, w3)"
    and "files w3 = files (snd ?r)" by blast
  then have c: "fst (process_variant ex_cat ex_music [] ex_vocal (snd ?r)) = Done"
    and d: "files (snd (process_variant ex_cat ex_music [] ex_vocal (snd ?r))) = files (snd ?r)"
    by simp_all
  show ?thesis using ex_tup ex_faulty_absent ex_audio_faulty hf a b c d by blast
qed

section \<open>Text frames\<close>

lemma empty_frame_iff: "empty_frame v \<longleftrightarrow> v = [] \<or> v = [[]]"
  unfolding empty_frame_def by (induction "[CHR 0x00]" v rule: join.induct) auto

lemma saved_apply: "saved mp3 key = (case mp3 key of None \<Rightarrow> None | Some v \<Rightarrow> stored v)"
  by (simp add: saved_def stored_def empty_frame_iff split: option.splits)

lemma phase1_lookup:
  "phase1 music vocal tup mp3 ''title'' = Some [title music]"
  "phase1 music vocal tup mp3 ''lyricist''
     = (if lyricist music = ''-'' then mp3 ''lyricist'' else Some [lyricist music])"
  "phase1 music vocal tup mp3 ''composer''
     = (if composer music = ''-'' then mp3 ''composer'' else Some [composer music])"
  "phase1 music vocal tup mp3 ''arranger''
     = (if arranger music = ''-'' then mp3 ''arranger'' else Some [arranger music])"
  "phase1 music vocal tup mp3 ''artist'' = Some (tup @ spec_authors music)"
  "phase1 music vocal tup mp3 ''performer'' = Some tup"
  "phase1 music vocal tup mp3 ''album''
     = Some [''Project Sekai Soundtrack - '' @ musicVocalType vocal]"
  by (simp_all add: phase1_def getattr_def artists_def authors_spec)

lemma stored_simps [simp]:
  "stored [] = None" "stored [[]] = None" "stored [c # s] = Some [c # s]"
  "stored (x # y # ys) = Some (x # y # ys)"
  by (simp_all add: stored_def)

text \<open>
  Claim C5. For a variant that is fetched and whose first tagging phase completes, the
  text frames of the saved file are: the title of the track; each of lyricist,
  composer and arranger exactly when its value is not \<^verbatim>\<open>"-"\<close> (for \<^verbatim>\<open>"-"\<close> the key is
  not touched and keeps the frame that the payload carried, if any), an empty value
  leaving no frame rather than an empty one; as artist the character names followed by
  the specification's author list; as performer the character names; and as album
  \<^verbatim>\<open>Project Sekai Soundtrack - <variantType>\<close>. As for the authors, a frame whose list
  is empty or one empty string is left out of the file.
\<close>

theorem phase1_tagging:
  assumes "characters_tup cat (characters vocal) = Inr tup"
      and "\<not> path_exists w (destination music vocal tup)"
      and "retry_get (audio_url vocal) (net w) = (Some dl, k)"
      and "process_variant cat music cover_png vocal w = (out, w')"
      and "faults w (destination music vocal tup) dl \<noteq> Phase1Fails"
  shows "\<exists>file. files w' (destination music vocal tup) = Some file
          \<and> easy_tags file ''title'' = stored [title music]
          \<and> easy_tags file ''lyricist''
              = (if lyricist music = ''-'' then saved (carried w dl) ''lyricist''
                 else stored [lyricist music])
          \<and> easy_tags file ''composer''
              = (if composer music = ''-'' then saved (carried w dl) ''composer''
                 else stored [composer music])
          \<and> easy_tags file ''arranger''
              = (if arranger music = ''-'' then saved (carried w dl) ''arranger''
                 else stored [arranger music])
          \<and> easy_tags file ''artist'' = stored (tup @ spec_authors music)
          \<and> easy_tags file ''performer'' = stored tup
          \<and> easy_tags file ''album''
              = Some [''Project Sekai Soundtrack - '' @ musicVocalType vocal]"
proof -
  let ?p = "destination music vocal tup"
  from process_variant_fetched(3)[OF assms(1-4)] assms(5)
  have "\<exists>file. files w' ?p = Some file
      \<and> easy_tags file = saved (phase1 music vocal tup (carried w dl))"
    by (cases "faults w ?p dl") simp_all
  then obtain mp3 where "files w' ?p = Some mp3"
    and "easy_tags mp3 = saved (phase1 music vocal tup (carried w dl))" by blast
  then show ?thesis by (simp add: saved_apply phase1_lookup)
qed

lemma ex_blank_destination:
  "destination ex_music_blank ex_vocal [''HatsuneMiku''] = ex_path"
  by (simp add: destination_def oop_path_def parts_def as_posix_def music_file_name_def
      raw_file_name_def authors_repr_def authors_def author_dict_def characters_repr_def
      forbidden_def replace_char_def ex_music_blank_def ex_music_def ex_vocal_def ex_path_def)

lemma ex_mp3_accepted: "faults ex_world p ex_mp3 = NoFault"
  by (simp add: ex_world_def ex_mp3_def ex_frame_def)

theorem phase1_tagging_witness:
  "characters_tup ex_cat (characters ex_vocal) = Inr [''HatsuneMiku'']
   \<and> \<not> path_exists ex_world (destination ex_music ex_vocal [''HatsuneMiku''])
   \<and> retry_get (audio_url ex_vocal) (net ex_world) = (Some ex_mp3, 1)
   \<and> faults ex_world (destination ex_music ex_vocal [''HatsuneMiku'']) ex_mp3 = NoFault
   \<and> (\<exists>file. files (snd (process_variant ex_cat ex_music ex_png ex_vocal ex_world)) ex_path
                 = Some file
          \<and> easy_tags file ''title'' = Some [''Tell Your World'']
          \<and> easy_tags file ''lyricist'' = Some [''kz'']
          \<and> easy_tags file ''composer'' = Some [''kz'']
          \<and> easy_tags file ''arranger'' = None
          \<and> easy_tags file ''artist'' = Some [''HatsuneMiku'', ''kz'']
          \<and> easy_tags file ''performer'' = Some [''HatsuneMiku'']
          \<and> easy_tags file ''album'' = Some [''Project Sekai Soundtrack - sekai''])
   \<and> lyricist ex_music_blank = []
   \<and> (\<exists>file. files (snd (process_variant ex_cat ex_music_blank ex_png ex_vocal ex_world)) ex_path
                 = Some file
          \<and> easy_tags file ''lyricist'' = None
          \<and> easy_tags file ''artist'' = Some [''HatsuneMiku'', ''kz''])"
proof -
  let ?r = "process_variant ex_cat ex_music ex_png ex_vocal ex_world"
  let ?b = "process_variant ex_cat ex_music_blank ex_png ex_vocal ex_world"
  have r: "?r = (fst ?r, snd ?r)" and b: "?b = (fst ?b, snd ?b)" by simp_all
  have np: "faults ex_world p ex_mp3 \<noteq> Phase1Fails" for p by (simp add: ex_mp3_accepted)
  have sa: "spec_authors ex_music = [''kz'']" "spec_authors ex_music_blank = [''kz'']"
    by (simp_all add: spec_authors_def ex_music_def ex_music_blank_def)
  have ca: "carried ex_world dl = Map.empty" for dl by (simp add: ex_world_def)
  have fields: "title ex_music = ''Tell Your World''" "lyricist ex_music = ''kz''"
    "composer ex_music = ''kz''" "arranger ex_music = ''-''"
    "lyricist ex_music_blank = []" "musicVocalType ex_vocal = ''sekai''"
    by (simp_all add: ex_music_def ex_music_blank_def ex_vocal_def)
  from phase1_tagging[OF ex_tup ex_absent ex_audio r np]
  have 1: "\<exists>file. files (snd ?r) ex_path = Some file
          \<and> easy_tags file ''title'' = Some [''Tell Your World'']
          \<and> easy_tags file ''lyricist'' = Some [''kz'']
          \<and> easy_tags file ''composer'' = Some [''kz'']
          \<and> easy_tags file ''arranger'' = None
          \<and> easy_tags file ''artist'' = Some [''HatsuneMiku'', ''kz'']
          \<and> easy_tags file ''performer'' = Some [''HatsuneMiku'']
          \<and> easy_tags file ''album'' = Some [''Project Sekai Soundtrack - sekai'']"
    by (simp add: ex_destination sa ca saved_apply fields)
  from phase1_tagging[OF ex_tup ex_absent ex_audio b np]
  have 2: "\<exists>file. files (snd ?b) ex_path = Some file
          \<and> easy_tags file ''lyricist'' = None
          \<and> easy_tags file ''artist'' = Some [''HatsuneMiku'', ''kz'']"
    by (simp add: ex_blank_destination sa ca saved_apply fields) blast
  have 3: "lyricist ex_music_blank = []" by (simp add: ex_music_blank_def)
  show ?thesis using ex_tup ex_absent ex_audio ex_mp3_accepted 1 2 3 by blast
qed

section \<open>A run over an output directory that is complete\<close>













lemma ex_title_prints:
  "rich_print w (cover_message ex_music)"
  "rich_print w (downloaded_message ex_music)"
  by (simp_all add: rich_print_def cover_message_def downloaded_message_def ex_music_def)



lemma ex_cover_answer: "ex_answer (cover_url ex_music) = Some ex_png"
  by (simp add: ex_answer_def cover_url_def audio_url_def ex_music_def ex_vocal_def)






section \<open>A worker on its own\<close>

lemma fetch_step_None:
  assumes "net w = r # rs" "r url = None"
  shows "fetch ev url w = fetch ev url (w\<lparr>net := rs, trace := trace w @ [ev url]\<rparr>)"
  using assms by (simp add: fetch_def split: prod.splits)

lemma fetch_step_Some:
  assumes "net w = r # rs" "r url = Some b"
  shows "fetch ev url w = (Some b, w\<lparr>net := rs, trace := trace w @ [ev url]\<rparr>)"
  using assms by (simp add: fetch_def)

lemma fetch_step_Nil:
  assumes "net w = []"
  shows "fetch ev url w = (None, w)"
  using assms by (simp add: fetch_def)

lemma fetch_music_finish:
  "fetch_music cat music vocals w =
     (case fetch GetCover (cover_url music) w of
        (None, w1) \<Rightarrow> (Starved, w1)
      | (Some cover_png, w1) \<Rightarrow>
          if \<not> rich_print w1 (cover_message music) then (Raised MarkupError, w1)
          else finish cat music cover_png vocals w1)"
  by (simp add: fetch_music_def finish_def split: prod.splits option.splits)

lemma finish_Nil:
  "finish cat music cover_png [] w =
     (if \<not> rich_print w (downloaded_message music) then (Raised MarkupError, w)
      else (Done, emit Advance w))"
  by (simp add: finish_def)

lemma finish_Cons:
  "finish cat music cover_png (vocal # vocals) w =
     (case characters_tup cat (characters vocal) of
        Inl e \<Rightarrow> (Raised e, w)
      | Inr tup \<Rightarrow>
          if path_exists (mkdir (oop_parent vocal) w)
               (oop_path vocal (music_file_name music vocal tup))
          then finish cat music cover_png vocals
                 (emit AdvanceVariant (mkdir (oop_parent vocal) w))
          else rest_audio cat music cover_png vocal tup vocals (mkdir (oop_parent vocal) w))"
proof (cases "characters_tup cat (characters vocal)")
  case (Inl e)
  then show ?thesis by (simp add: finish_def process_variant_def)
next
  case (Inr tup)
  let ?w1 = "mkdir (oop_parent vocal) w"
  let ?p = "oop_path vocal (music_file_name music vocal tup)"
  show ?thesis
  proof (cases "path_exists ?w1 ?p")
    case True
    with Inr show ?thesis
      by (simp add: finish_def process_variant_def Let_def del: path_exists_mkdir)
  next
    case False
    obtain res w2 where f: "fetch GetAudio (audio_url vocal) ?w1 = (res, w2)"
      by (cases "fetch GetAudio (audio_url vocal) ?w1")
    show ?thesis
    proof (cases res)
      case None
      with Inr False f show ?thesis
        by (simp add: finish_def process_variant_def rest_audio_def Let_def
            del: path_exists_mkdir)
    next
      case (Some dl)
      with Inr False f show ?thesis
        by (cases "faults (write_file ?p dl w2) ?p dl")
           (simp_all add: finish_def process_variant_def rest_audio_def Let_def
            del: path_exists_mkdir)
    qed
  qed
qed

lemma drive_ended [simp]:
  "drive cat n Returned w = (Returned, w)" "drive cat n (Raising e) w = (Raising e, w)"
  by (induction n) simp_all

lemma drive_stuck: "net w = [] \<Longrightarrow> awaiting t \<Longrightarrow> drive cat n t w = (t, w)"
  by (induction n) (cases t; simp)+

lemma solo_ended [simp]:
  "solo cat n Returned w = (Done, w)" "solo cat n (Raising e) w = (Raised e, w)"
  by (simp_all add: solo_def)

lemma solo_stuck: "net w = [] \<Longrightarrow> awaiting t \<Longrightarrow> solo cat n t w = (Starved, w)"
  by (cases t) (simp_all add: solo_def drive_stuck)

lemma run_variants_net: "run_variants cat music cover_png vocals w = (t, w') \<Longrightarrow> net w' = net w"
proof (induction vocals arbitrary: w)
  case Nil
  then show ?case by (auto split: if_splits)
next
  case (Cons vocal vocals)
  then show ?case
    by (auto simp: Let_def split: sum.splits if_splits)
qed

text \<open>
  The code between two awaits agrees with the uninterrupted worker, provided the tasks
  that wait for an audio request do.
\<close>

lemma run_variants_finish:
  assumes audio: "\<And>vocal tup vocals w. length (net w) \<le> k \<Longrightarrow>
      solo cat k (Audio music cover_png vocal tup vocals) w
        = rest_audio cat music cover_png vocal tup vocals w"
  shows "length (net w) \<le> k \<Longrightarrow>
     (case run_variants cat music cover_png vocals w of (t, w') \<Rightarrow> solo cat k t w')
       = finish cat music cover_png vocals w"
proof (induction vocals arbitrary: w)
  case Nil
  then show ?case by (simp add: finish_Nil)
next
  case (Cons vocal vocals)
  show ?case
  proof (cases "characters_tup cat (characters vocal)")
    case (Inl e)
    then show ?thesis by (simp add: finish_Cons)
  next
    case (Inr tup)
    let ?w1 = "mkdir (oop_parent vocal) w"
    have n: "length (net ?w1) \<le> k" "length (net (emit AdvanceVariant ?w1)) \<le> k"
      using Cons.prems by simp_all
    show ?thesis
    proof (cases "path_exists ?w1 (oop_path vocal (music_file_name music vocal tup))")
      case True
      with Inr Cons.IH[OF n(2)] show ?thesis
        by (simp add: finish_Cons Let_def del: path_exists_mkdir)
    next
      case False
      with Inr audio[OF n(1)] show ?thesis
        by (simp add: finish_Cons Let_def del: path_exists_mkdir)
    qed
  qed
qed

lemma solo_step:
  "solo cat (Suc n) t w = (case resume cat t w of (t', w') \<Rightarrow> solo cat n t' w')"
  by (simp add: solo_def split: prod.splits)

lemma rest_audio_Nil:
  "net w = [] \<Longrightarrow> rest_audio cat music cover_png vocal tup vocals w = (Starved, w)"
  by (simp add: rest_audio_def fetch_step_Nil)

lemma fetch_music_Nil: "net w = [] \<Longrightarrow> fetch_music cat music vocals w = (Starved, w)"
  by (simp add: fetch_music_finish fetch_step_Nil)

lemma solo_audio:
  "length (net w) \<le> n \<Longrightarrow>
   solo cat n (Audio music cover_png vocal tup vocals) w
     = rest_audio cat music cover_png vocal tup vocals w"
proof (induction n arbitrary: w music cover_png vocal tup vocals)
  case 0
  then show ?case by (simp add: solo_stuck rest_audio_Nil)
next
  case (Suc n)
  show ?case
  proof (cases "net w")
    case Nil
    then show ?thesis by (simp add: solo_stuck rest_audio_Nil)
  next
    case (Cons r rs)
    let ?w1 = "w\<lparr>net := rs, trace := trace w @ [GetAudio (audio_url vocal)]\<rparr>"
    let ?p = "oop_path vocal (music_file_name music vocal tup)"
    have len: "length (net ?w1) \<le> n" using Suc.prems Cons by simp
    show ?thesis
    proof (cases "r (audio_url vocal)")
      case None
      have "solo cat (Suc n) (Audio music cover_png vocal tup vocals) w
          = solo cat n (Audio music cover_png vocal tup vocals) ?w1"
        using Cons None by (simp add: solo_step Let_def)
      also have "\<dots> = rest_audio cat music cover_png vocal tup vocals ?w1"
        by (rule Suc.IH[OF len])
      also have "\<dots> = rest_audio cat music cover_png vocal tup vocals w"
        by (simp add: rest_audio_def fetch_step_None[OF Cons None])
      finally show ?thesis .
    next
      case (Some dl)
      let ?w3 = "write_file ?p dl ?w1"
      let ?w4 = "emit AdvanceVariant
          (save_cover ?p cover_png (save_tags ?p (phase1 music vocal tup) ?w3))"
      have f: "fetch GetAudio (audio_url vocal) w = (Some dl, ?w1)"
        by (rule fetch_step_Some[OF Cons Some])
      show ?thesis
      proof (cases "faults ?w3 ?p dl")
        case NoFault
        have len4: "length (net ?w4) \<le> n" using len by simp
        have "solo cat (Suc n) (Audio music cover_png vocal tup vocals) w
            = (case run_variants cat music cover_png vocals ?w4 of (t, w') \<Rightarrow> solo cat n t w')"
          using Cons Some NoFault by (simp add: solo_step Let_def)
        also have "\<dots> = finish cat music cover_png vocals ?w4"
          by (rule run_variants_finish[OF Suc.IH len4])
        also have "\<dots> = rest_audio cat music cover_png vocal tup vocals w"
          using NoFault by (simp add: rest_audio_def f Let_def)
        finally show ?thesis .
      next
        case Phase1Fails
        then show ?thesis using Cons Some by (simp add: solo_step Let_def rest_audio_def f)
      next
        case Phase2Fails
        then show ?thesis using Cons Some by (simp add: solo_step Let_def rest_audio_def f)
      qed
    qed
  qed
qed

lemma solo_cover:
  "length (net w) \<le> n \<Longrightarrow>
   solo cat n (Cover music vocals) w = fetch_music cat music vocals w"
proof (induction n arbitrary: w)
  case 0
  then show ?case by (simp add: solo_stuck fetch_music_Nil)
next
  case (Suc n)
  show ?case
  proof (cases "net w")
    case Nil
    then show ?thesis by (simp add: solo_stuck fetch_music_Nil)
  next
    case (Cons r rs)
    let ?w1 = "w\<lparr>net := rs, trace := trace w @ [GetCover (cover_url music)]\<rparr>"
    have len: "length (net ?w1) \<le> n" using Suc.prems Cons by simp
    show ?thesis
    proof (cases "r (cover_url music)")
      case None
      have "solo cat (Suc n) (Cover music vocals) w = solo cat n (Cover music vocals) ?w1"
        using Cons None by (simp add: solo_step Let_def)
      also have "\<dots> = fetch_music cat music vocals ?w1" by (rule Suc.IH[OF len])
      also have "\<dots> = fetch_music cat music vocals w"
        by (simp add: fetch_music_finish fetch_step_None[OF Cons None])
      finally show ?thesis .
    next
      case (Some cover_png)
      have f: "fetch GetCover (cover_url music) w = (Some cover_png, ?w1)"
        by (rule fetch_step_Some[OF Cons Some])
      show ?thesis
      proof (cases "rich_print ?w1 (cover_message music)")
        case False
        then show ?thesis using Cons Some by (simp add: solo_step Let_def fetch_music_finish f)
      next
        case True
        have "solo cat (Suc n) (Cover music vocals) w
            = (case run_variants cat music cover_png vocals ?w1 of (t, w') \<Rightarrow> solo cat n t w')"
          using Cons Some True by (simp add: solo_step Let_def)
        also have "\<dots> = finish cat music cover_png vocals ?w1"
          by (rule run_variants_finish[OF solo_audio len])
        also have "\<dots> = fetch_music cat music vocals w"
          using True by (simp add: fetch_music_finish f)
        finally show ?thesis .
      qed
    qed
  qed
qed

text \<open>A run of one worker is that worker on its own.\<close>

lemma turns_raised:
  "turns cat (replicate n 0) (Some e, [Raising e'], w) = (Some e, [Raising e'], w)"
  by (induction n) (simp_all add: first_failure_def)

lemma turns_alone:
  "\<forall>e. t \<noteq> Raising e \<Longrightarrow>
   turns cat (replicate n 0) (None, [t], w)
     = (case drive cat n t w of
          (t', w') \<Rightarrow> ((case t' of Raising e \<Rightarrow> Some e | _ \<Rightarrow> None), [t'], w'))"
proof (induction n arbitrary: t w)
  case 0
  then show ?case by (cases t) simp_all
next
  case (Suc n)
  obtain t1 w1 where r: "resume cat t w = (t1, w1)" by (cases "resume cat t w")
  show ?case
  proof (cases "\<exists>e. t1 = Raising e")
    case True
    then obtain e where "t1 = Raising e" by blast
    with r show ?thesis by (simp add: first_failure_def turns_raised)
  next
    case False
    then have "first_failure None t1 = None" by (cases t1) (simp_all add: first_failure_def)
    with r Suc.IH[of t1 w1] False show ?thesis by simp
  qed
qed

lemma gather_alone:
  "gather cat (replicate n 0) [(music, vocals)] w = solo cat n (Cover music vocals) w"
proof -
  obtain t' w' where d: "drive cat n (Cover music vocals) w = (t', w')"
    by (cases "drive cat n (Cover music vocals) w")
  have "turns cat (replicate n 0) (None, [Cover music vocals], w)
      = ((case t' of Raising e \<Rightarrow> Some e | _ \<Rightarrow> None), [t'], w')"
    using turns_alone[of "Cover music vocals" cat n w] d by simp
  then show ?thesis
    by (cases t') (simp_all add: gather_def start_def solo_def d)
qed

lemma gather_alone_fetch_music:
  "length (net w) \<le> n \<Longrightarrow>
   gather cat (replicate n 0) [(music, vocals)] w = fetch_music cat music vocals w"
  by (simp add: gather_alone solo_cover)

section \<open>Character references that the catalog does not have\<close>

lemma character_name_dangling:
  "dangling cat c \<Longrightarrow> character_name cat c = Inl (KeyError (characterId c))"
  by (simp add: dangling_def character_name_def split: if_splits)

lemma character_name_Inl:
  "character_name cat c = Inl e \<Longrightarrow> dangling cat c \<and> e = KeyError (characterId c)"
  by (auto simp: dangling_def character_name_def split: if_splits option.splits)

lemma characters_tup_dangling:
  "c \<in> set cs \<Longrightarrow> dangling cat c \<Longrightarrow>
   \<exists>c' \<in> set cs. dangling cat c' \<and> characters_tup cat cs = Inl (KeyError (characterId c'))"
proof (induction cs)
  case Nil
  then show ?case by simp
next
  case (Cons a cs)
  show ?case
  proof (cases "character_name cat a")
    case (Inl e)
    then show ?thesis using character_name_Inl[OF Inl] by auto
  next
    case (Inr n)
    with Cons.prems have "c \<in> set cs" by (auto simp: character_name_dangling)
    from Cons.IH[OF this Cons.prems(2)] Inr show ?thesis by auto
  qed
qed

lemma process_variant_Starved:
  "process_variant cat music cover_png vocal w = (Starved, w') \<Longrightarrow> net w' = []"
  by (auto simp: process_variant_def Let_def split: sum.splits if_splits prod.splits
      option.splits tag_fault.splits dest: fetch_None)

lemma process_variants_Starved:
  "process_variants cat music cover_png vocals w = (Starved, w') \<Longrightarrow> net w' = []"
proof (induction vocals arbitrary: w)
  case Nil
  then show ?case by simp
next
  case (Cons vocal vocals)
  then show ?case
    by (auto split: prod.splits outcome.splits dest: process_variant_Starved)
qed

lemma fetch_music_Starved:
  "fetch_music cat music vocals w = (Starved, w') \<Longrightarrow> net w' = []"
  by (auto simp: fetch_music_def split: prod.splits option.splits outcome.splits if_splits
      dest: fetch_None process_variants_Starved)

lemma process_variants_dangling:
  assumes "vocal \<in> set vocals" "c \<in> set (characters vocal)" "dangling cat c"
  shows "process_variants cat music cover_png vocals w \<noteq> (Done, w')"
  using assms(1)
proof (induction vocals arbitrary: w)
  case Nil
  then show ?case by simp
next
  case (Cons v vocals)
  show ?case
  proof (cases "v = vocal")
    case True
    from characters_tup_dangling[OF assms(2,3)] obtain c' where
      "c' \<in> set (characters vocal)"
      "characters_tup cat (characters vocal) = Inl (KeyError (characterId c'))" by blast
    with True show ?thesis by (simp add: process_variant_def)
  next
    case False
    with Cons.prems have "vocal \<in> set vocals" by simp
    from Cons.IH[OF this] show ?thesis
      by (auto split: prod.splits outcome.splits)
  qed
qed

lemma fetch_music_dangling:
  assumes "vocal \<in> set vocals" "c \<in> set (characters vocal)" "dangling cat c"
  shows "fetch_music cat music vocals w \<noteq> (Done, w')"
  using process_variants_dangling[OF assms]
  by (auto simp: fetch_music_def split: prod.splits option.splits outcome.splits if_splits)

lemma characters_tup_resolved:
  "characters_tup cat (characters vocal) = Inr tup \<Longrightarrow> \<not> has_dangling cat vocal"
  using characters_tup_dangling[of _ "characters vocal" cat]
  by (auto simp: has_dangling_def list_ex_iff)

lemma run_variants_doomed:
  "list_ex (has_dangling cat) vocals \<Longrightarrow>
   doomed cat (fst (run_variants cat music cover_png vocals w))"
proof (induction vocals arbitrary: w)
  case Nil
  then show ?case by simp
next
  case (Cons vocal vocals)
  show ?case
  proof (cases "characters_tup cat (characters vocal)")
    case (Inl e)
    then show ?thesis by simp
  next
    case (Inr tup)
    from characters_tup_resolved[OF Inr] Cons.prems
    have rest: "list_ex (has_dangling cat) vocals" by simp
    from Cons.IH[OF rest] Inr rest show ?thesis by (simp add: Let_def)
  qed
qed

lemma resume_doomed: "doomed cat t \<Longrightarrow> doomed cat (fst (resume cat t w))"
proof (cases t)
  case (Cover music vocals)
  assume "doomed cat t"
  with Cover show ?thesis
    by (auto simp: Let_def run_variants_doomed split: list.splits option.splits)
next
  case (Audio music cover_png vocal tup vocals)
  assume "doomed cat t"
  with Audio show ?thesis
    by (auto simp: Let_def run_variants_doomed
        split: list.splits option.splits tag_fault.splits)
qed simp_all

text \<open>
  Two invariants of a run: a doomed task stays doomed, and once a task has raised the
  run has an exception.
\<close>

lemma turns_doomed:
  assumes "turns cat schedule (failure, ts, w) = (failure', ts', w')"
      and "i < length ts" "doomed cat (ts ! i)"
  shows "length ts' = length ts \<and> doomed cat (ts' ! i)"
  using assms
proof (induction schedule arbitrary: failure ts w)
  case Nil
  then show ?case by simp
next
  case (Cons j schedule)
  show ?case
  proof (cases "j < length ts")
    case False
    with Cons.prems(1) have "turns cat schedule (failure, ts, w) = (failure', ts', w')" by simp
    from Cons.IH[OF this Cons.prems(2,3)] show ?thesis .
  next
    case True
    obtain t1 w1 where r: "resume cat (ts ! j) w = (t1, w1)" by (cases "resume cat (ts ! j) w")
    with True Cons.prems(1)
    have t: "turns cat schedule (first_failure failure t1, ts[j := t1], w1) = (failure', ts', w')"
      by simp
    have "doomed cat (ts[j := t1] ! i)"
    proof (cases "i = j")
      case True
      with Cons.prems(2,3) resume_doomed[of cat "ts ! j" w] r show ?thesis by simp
    next
      case False
      with Cons.prems(3) show ?thesis by simp
    qed
    with Cons.IH[OF t, of ] Cons.prems(2) show ?thesis by simp
  qed
qed

lemma turns_noted:
  assumes "turns cat schedule (failure, ts, w) = (failure', ts', w')"
      and "\<forall>e. Raising e \<in> set ts \<longrightarrow> failure \<noteq> None"
  shows "\<forall>e. Raising e \<in> set ts' \<longrightarrow> failure' \<noteq> None"
  using assms
proof (induction schedule arbitrary: failure ts w)
  case Nil
  then show ?case by simp
next
  case (Cons j schedule)
  show ?case
  proof (cases "j < length ts")
    case False
    with Cons.prems(1) have "turns cat schedule (failure, ts, w) = (failure', ts', w')" by simp
    from Cons.IH[OF this Cons.prems(2)] show ?thesis .
  next
    case True
    obtain t1 w1 where r: "resume cat (ts ! j) w = (t1, w1)" by (cases "resume cat (ts ! j) w")
    with True Cons.prems(1)
    have t: "turns cat schedule (first_failure failure t1, ts[j := t1], w1) = (failure', ts', w')"
      by simp
    have "\<forall>e. Raising e \<in> set (ts[j := t1]) \<longrightarrow> first_failure failure t1 \<noteq> None"
    proof (intro allI impI)
      fix e assume "Raising e \<in> set (ts[j := t1])"
      then have "Raising e = t1 \<or> Raising e \<in> set ts"
        using set_update_subset_insert[of ts j t1] by auto
      then show "first_failure failure t1 \<noteq> None"
        using Cons.prems(2) by (auto simp: first_failure_def split: option.splits)
    qed
    from Cons.IH[OF t this] show ?thesis .
  qed
qed

lemma doomed_cases: "doomed cat t \<Longrightarrow> awaiting t \<or> (\<exists>e. t = Raising e)"
  by (cases t) simp_all

lemma start_nth: "i < length ws \<Longrightarrow> ws ! i = (music, vocals) \<Longrightarrow> start ws ! i = Cover music vocals"
  by (simp add: start_def)

text \<open>
  Claim C7. When a variant of a worker holds a character reference that is absent from
  the catalog of its discriminant, resolving its names raises \<^verbatim>\<open>KeyError\<close>, and the
  worker that comes to the variant raises that error with the world untouched
  (nothing is retried). The worker never returns: run without interruption, it ends
  in an error unless the network script ends while it is still retrying a request,
  and a run of this worker alone is that uninterrupted worker: it fails with an
  exception, unless the network script ran out. In a run of several workers, under
  every schedule, the worker is either still waiting for an answer of the network
  when the schedule ends, or the run has failed with an exception; the run never
  completes.
\<close>

theorem dangling_reference_is_fatal:
  assumes "vocal \<in> set vocals" "c \<in> set (characters vocal)" "dangling cat c"
  shows "(\<exists>c' \<in> set (characters vocal). dangling cat c'
            \<and> characters_tup cat (characters vocal) = Inl (KeyError (characterId c'))
            \<and> process_variant cat music cover_png vocal w = (Raised (KeyError (characterId c')), w)
            \<and> run_variants cat music cover_png (vocal # rest) w
                = (Raising (KeyError (characterId c')), w))
       \<and> fst (fetch_music cat music vocals w) \<noteq> Done
       \<and> (fst (fetch_music cat music vocals w) = Starved
            \<longrightarrow> net (snd (fetch_music cat music vocals w)) = [])
       \<and> (length (net w) \<le> n
            \<longrightarrow> gather cat (replicate n 0) [(music, vocals)] w = fetch_music cat music vocals w
                \<and> ((\<exists>e. fst (gather cat (replicate n 0) [(music, vocals)] w) = Raised e)
                     \<or> net (snd (gather cat (replicate n 0) [(music, vocals)] w)) = []))
       \<and> (i < length ws \<and> ws ! i = (music, vocals)
            \<and> turns cat schedule (None, start ws, w) = (failure, ts, w')
            \<longrightarrow> (awaiting (ts ! i) \<or> (\<exists>e. fst (gather cat schedule ws w) = Raised e))
                \<and> fst (gather cat schedule ws w) \<noteq> Done)"
proof -
  from characters_tup_dangling[OF assms(2,3)] obtain c' where
    c': "c' \<in> set (characters vocal)" "dangling cat c'"
    "characters_tup cat (characters vocal) = Inl (KeyError (characterId c'))" by blast
  then have "process_variant cat music cover_png vocal w = (Raised (KeyError (characterId c')), w)"
    "run_variants cat music cover_png (vocal # rest) w = (Raising (KeyError (characterId c')), w)"
    by (simp_all add: process_variant_def)
  with c' have variant: "\<exists>c' \<in> set (characters vocal). dangling cat c'
            \<and> characters_tup cat (characters vocal) = Inl (KeyError (characterId c'))
            \<and> process_variant cat music cover_png vocal w = (Raised (KeyError (characterId c')), w)
            \<and> run_variants cat music cover_png (vocal # rest) w
                = (Raising (KeyError (characterId c')), w)"
    by blast
  have not_done: "fst (fetch_music cat music vocals w) \<noteq> Done"
    using fetch_music_dangling[where music = music and w = w, OF assms]
    by (cases "fetch_music cat music vocals w") auto
  have starved: "fst (fetch_music cat music vocals w) = Starved
      \<longrightarrow> net (snd (fetch_music cat music vocals w)) = []"
    using fetch_music_Starved[of cat music vocals w]
    by (cases "fetch_music cat music vocals w") auto
  have alone: "length (net w) \<le> n
      \<longrightarrow> gather cat (replicate n 0) [(music, vocals)] w = fetch_music cat music vocals w
          \<and> ((\<exists>e. fst (gather cat (replicate n 0) [(music, vocals)] w) = Raised e)
               \<or> net (snd (gather cat (replicate n 0) [(music, vocals)] w)) = [])"
  proof
    assume "length (net w) \<le> n"
    then have g: "gather cat (replicate n 0) [(music, vocals)] w = fetch_music cat music vocals w"
      by (rule gather_alone_fetch_music)
    have "(\<exists>e. fst (fetch_music cat music vocals w) = Raised e)
        \<or> net (snd (fetch_music cat music vocals w)) = []"
      using not_done starved by (cases "fst (fetch_music cat music vocals w)") simp_all
    with g show "gather cat (replicate n 0) [(music, vocals)] w = fetch_music cat music vocals w
          \<and> ((\<exists>e. fst (gather cat (replicate n 0) [(music, vocals)] w) = Raised e)
               \<or> net (snd (gather cat (replicate n 0) [(music, vocals)] w)) = [])"
      by simp
  qed
  have run: "i < length ws \<and> ws ! i = (music, vocals)
        \<and> turns cat schedule (None, start ws, w) = (failure, ts, w')
      \<longrightarrow> (awaiting (ts ! i) \<or> (\<exists>e. fst (gather cat schedule ws w) = Raised e))
          \<and> fst (gather cat schedule ws w) \<noteq> Done"
  proof
    assume run: "i < length ws \<and> ws ! i = (music, vocals)
        \<and> turns cat schedule (None, start ws, w) = (failure, ts, w')"
    then have i: "i < length (start ws)" and s: "start ws ! i = Cover music vocals"
      and t: "turns cat schedule (None, start ws, w) = (failure, ts, w')"
      by (simp_all add: start_nth) (simp add: start_def)
    have "has_dangling cat vocal" using assms(2,3) by (auto simp: has_dangling_def list_ex_iff)
    with assms(1) have "doomed cat (start ws ! i)" by (auto simp: s list_ex_iff)
    from turns_doomed[OF t i this] have len: "length ts = length (start ws)"
      and d: "doomed cat (ts ! i)" by simp_all
    have noted: "\<forall>e. Raising e \<in> set ts \<longrightarrow> failure \<noteq> None"
      by (rule turns_noted[OF t]) (auto simp: start_def)
    have g: "fst (gather cat schedule ws w)
        = (case failure of Some e \<Rightarrow> Raised e
           | None \<Rightarrow> if list_all (\<lambda>t. t = Returned) ts then Done else Starved)"
      by (simp add: gather_def t)
    have member: "ts ! i \<in> set ts" using i len by simp
    have 1: "awaiting (ts ! i) \<or> (\<exists>e. fst (gather cat schedule ws w) = Raised e)"
    proof (cases "awaiting (ts ! i)")
      case False
      with doomed_cases[OF d] obtain e where "ts ! i = Raising e" by blast
      with member noted have "failure \<noteq> None" by metis
      then show ?thesis by (auto simp: g)
    qed simp
    have 2: "fst (gather cat schedule ws w) \<noteq> Done"
    proof (cases failure)
      case (Some e)
      then show ?thesis by (simp add: g)
    next
      case None
      have "ts ! i \<noteq> Returned" using d by auto
      with member have "\<not> list_all (\<lambda>t. t = Returned) ts" by (auto simp: list_all_iff)
      with None show ?thesis by (simp add: g)
    qed
    from 1 2 show "(awaiting (ts ! i) \<or> (\<exists>e. fst (gather cat schedule ws w) = Raised e))
          \<and> fst (gather cat schedule ws w) \<noteq> Done" ..
  qed
  from variant not_done starved alone run show ?thesis by (intro conjI)
qed

lemma ex_dangling: "dangling ex_cat ex_bad_ref"
  by (simp add: dangling_def ex_bad_ref_def ex_cat_def)

lemma ex_net: "net ex_world = ex_answer # replicate 3 ex_answer"
  by (simp add: ex_world_def numeral_eq_Suc)

lemma ex_bad_tup: "characters_tup ex_cat (characters ex_vocal_bad) = Inl (KeyError 99)"
  by (simp add: ex_vocal_bad_def ex_bad_ref_def ex_cat_def character_name_def)

lemma ex_bad_worker:
  "fetch_music ex_cat ex_music [ex_vocal_bad] ex_world
     = (Raised (KeyError 99),
        ex_world\<lparr>net := replicate 3 ex_answer,
                 trace := trace ex_world @ [GetCover (cover_url ex_music)]\<rparr>)"
  by (simp add: fetch_music_def fetch_def ex_net ex_cover_answer ex_title_prints
      process_variant_def ex_bad_tup)

lemma ex_bad_turn:
  "resume ex_cat (Cover ex_music [ex_vocal_bad]) ex_world
     = (Raising (KeyError 99),
        ex_world\<lparr>net := replicate 3 ex_answer,
                 trace := trace ex_world @ [GetCover (cover_url ex_music)]\<rparr>)"
  by (simp add: ex_net ex_cover_answer ex_title_prints ex_bad_tup Let_def)

lemma ex_bad_turns:
  "turns ex_cat [0] (None, start [(ex_music, [ex_vocal_bad])], ex_world)
     = (Some (KeyError 99), [Raising (KeyError 99)],
        ex_world\<lparr>net := replicate 3 ex_answer,
                 trace := trace ex_world @ [GetCover (cover_url ex_music)]\<rparr>)"
  unfolding start_def by (simp add: ex_bad_turn first_failure_def del: resume.simps)

theorem dangling_reference_is_fatal_witness:
  "ex_vocal_bad \<in> set [ex_vocal_bad] \<and> ex_bad_ref \<in> set (characters ex_vocal_bad)
   \<and> dangling ex_cat ex_bad_ref
   \<and> process_variant ex_cat ex_music ex_png ex_vocal_bad ex_world
       = (Raised (KeyError 99), ex_world)
   \<and> fst (fetch_music ex_cat ex_music [ex_vocal_bad] ex_world) = Raised (KeyError 99)
   \<and> \<not> awaiting (Raising (KeyError 99))
   \<and> fst (gather ex_cat [0] [(ex_music, [ex_vocal_bad])] ex_world) = Raised (KeyError 99)"
proof -
  let ?w1 = "ex_world\<lparr>net := replicate 3 ex_answer,
                 trace := trace ex_world @ [GetCover (cover_url ex_music)]\<rparr>"
  have h1: "ex_vocal_bad \<in> set [ex_vocal_bad]" by simp
  have h2: "ex_bad_ref \<in> set (characters ex_vocal_bad)" by (simp add: ex_vocal_bad_def)
  note t = dangling_reference_is_fatal[OF h1 h2 ex_dangling,
      where music = ex_music and cover_png = ex_png and w = ex_world and i = 0
        and ws = "[(ex_music, [ex_vocal_bad])]" and schedule = "[0]"
        and failure = "Some (KeyError 99)" and ts = "[Raising (KeyError 99)]"
        and w' = ?w1 and rest = "[]" and n = 4]
  from t obtain c' :: Character where
    "characters_tup ex_cat (characters ex_vocal_bad) = Inl (KeyError (characterId c'))"
    "process_variant ex_cat ex_music ex_png ex_vocal_bad ex_world
       = (Raised (KeyError (characterId c')), ex_world)"
    by blast
  with ex_bad_tup have pv: "process_variant ex_cat ex_music ex_png ex_vocal_bad ex_world
      = (Raised (KeyError 99), ex_world)"
    by simp
  have run: "0 < length [(ex_music, [ex_vocal_bad])]
      \<and> [(ex_music, [ex_vocal_bad])] ! 0 = (ex_music, [ex_vocal_bad])
      \<and> turns ex_cat [0] (None, start [(ex_music, [ex_vocal_bad])], ex_world)
          = (Some (KeyError 99), [Raising (KeyError 99)], ?w1)"
    by (intro conjI, simp, simp, rule ex_bad_turns)
  with t have "awaiting ([Raising (KeyError 99)] ! 0)
      \<or> (\<exists>e. fst (gather ex_cat [0] [(ex_music, [ex_vocal_bad])] ex_world) = Raised e)"
    by blast
  then have ex: "\<exists>e. fst (gather ex_cat [0] [(ex_music, [ex_vocal_bad])] ex_world) = Raised e"
    by simp
  have g: "fst (gather ex_cat [0] [(ex_music, [ex_vocal_bad])] ex_world)
      = Raised (KeyError 99)"
    unfolding gather_def ex_bad_turns by simp
  have w: "fst (fetch_music ex_cat ex_music [ex_vocal_bad] ex_world) = Raised (KeyError 99)"
    by (simp only: ex_bad_worker fst_conv)
  show ?thesis using h1 h2 ex_dangling pv ex g w by simp
qed

end
